theory Spec2Isabelle
  imports Complex_Main
begin

section \<open>Tensors, errors and the PyTorch primitives used by the interface\<close>

text \<open>
  The module \<^verbatim>\<open>causal_conv1d_interface.py\<close> has two pure-PyTorch reference functions
  (\<^verbatim>\<open>causal_conv1d_ref\<close>, \<^verbatim>\<open>causal_conv1d_update_ref\<close>) and two wrappers around the
  compiled extension \<^verbatim>\<open>causal_conv1d_cuda\<close> (\<^verbatim>\<open>CausalConv1dFn\<close>,
  \<^verbatim>\<open>causal_conv1d_update\<close>).

  For the reference functions a tensor is its shape together with its elements as nested
  lists. Elements are real numbers: arithmetic is exact, and the dtype casts
  \<^verbatim>\<open>x.to(weight.dtype)\<close> and \<^verbatim>\<open>.to(dtype_in)\<close> are the identity. Rounding of
  floating-point formats is outside this development.
\<close>

datatype error = NotImplementedError | RuntimeError | AssertionError | IndexError
  | ValueError | AttributeError

record tensor1 =
  shape1 :: nat
  data1 :: "real list"

record tensor2 =
  shape2 :: "nat \<times> nat"
  data2 :: "real list list"

record tensor3 =
  shape3 :: "nat \<times> nat \<times> nat"
  data3 :: "real list list list"

text \<open>A tensor is well formed when its nested lists have the lengths its shape says.\<close>

definition wf1 :: "tensor1 \<Rightarrow> bool" where
  "wf1 t = (length (data1 t) = shape1 t)"

definition wf2 :: "tensor2 \<Rightarrow> bool" where
  "wf2 t = (case shape2 t of (n, m) \<Rightarrow>
     length (data2 t) = n \<and> list_all (\<lambda>r. length r = m) (data2 t))"

definition wf3 :: "tensor3 \<Rightarrow> bool" where
  "wf3 t = (case shape3 t of (n, m, l) \<Rightarrow>
     length (data3 t) = n \<and>
     list_all (\<lambda>p. length p = m \<and> list_all (\<lambda>r. length r = l) p) (data3 t))"

text \<open>\<^verbatim>\<open>activation not in [None, "silu", "swish"]\<close> is the negation of this test.\<close>

definition activation_ok :: "string option \<Rightarrow> bool" where
  "activation_ok act = (act \<in> set [None, Some ''silu'', Some ''swish''])"

text \<open>\<^verbatim>\<open>F.silu\<close>: \<open>y * sigmoid y\<close>.\<close>

definition silu :: "real \<Rightarrow> real" where
  "silu y = y * (1 / (1 + exp (- y)))"

definition map_tensor2 :: "(real \<Rightarrow> real) \<Rightarrow> tensor2 \<Rightarrow> tensor2" where
  "map_tensor2 f t = t\<lparr>data2 := map (map f) (data2 t)\<rparr>"

definition map_tensor3 :: "(real \<Rightarrow> real) \<Rightarrow> tensor3 \<Rightarrow> tensor3" where
  "map_tensor3 f t = t\<lparr>data3 := map (map (map f)) (data3 t)\<rparr>"

text \<open>
  \<^verbatim>\<open>torch.cat([hidden, x], dim=-1)\<close> on two 3-D tensors: the sizes must agree on every
  dimension but the last, along which the rows are joined.
\<close>

definition cat_last :: "tensor3 \<Rightarrow> tensor3 \<Rightarrow> error + tensor3" where
  "cat_last h x = (case shape3 h of (bh, dh, s) \<Rightarrow> case shape3 x of (b, d, l) \<Rightarrow>
     if bh = b \<and> dh = d
     then Inr \<lparr>shape3 = (b, d, s + l), data3 = map2 (map2 (@)) (data3 h) (data3 x)\<rparr>
     else Inl RuntimeError)"

text \<open>
  One channel of \<^verbatim>\<open>F.conv1d\<close>: the row is padded with \<open>p\<close> zeros on both sides, and
  output position \<open>j\<close> is the sum of the taps times the padded samples \<open>j, ..., j + W - 1\<close>
  (a cross-correlation), plus the channel's bias when there is one.
\<close>

definition conv1d_row :: "real list \<Rightarrow> real option \<Rightarrow> nat \<Rightarrow> real list \<Rightarrow> real list" where
  "conv1d_row w b p xs =
     (let padded = replicate p 0 @ xs @ replicate p 0
      in map (\<lambda>j. let s = (\<Sum>k\<leftarrow>[0..<length w]. w ! k * padded ! (j + k))
                   in case b of None \<Rightarrow> s | Some c \<Rightarrow> s + c)
             [0..<length padded + 1 - length w])"

text \<open>
  \<^verbatim>\<open>F.conv1d(x, weight.unsqueeze(1), bias, padding=padding, groups=dim)\<close> for a weight of
  shape \<open>(dim, width)\<close>: a depthwise convolution, one filter per channel. PyTorch rejects
  (RuntimeError) a non-positive group count, a negative padding, an input whose channel
  count is not \<open>dim\<close>, a bias that has not \<open>dim\<close> elements, and a kernel longer than the
  padded input. The output has \<open>l + 2 * padding - width + 1\<close> time steps.
\<close>

definition conv1d_depthwise ::
  "tensor3 \<Rightarrow> tensor2 \<Rightarrow> tensor1 option \<Rightarrow> int \<Rightarrow> error + tensor3" where
  "conv1d_depthwise x weight bias padding =
     (case shape3 x of (b, c, l) \<Rightarrow> case shape2 weight of (dm, width) \<Rightarrow>
        if dm = 0 then Inl RuntimeError
        else if padding < 0 then Inl RuntimeError
        else if c \<noteq> dm then Inl RuntimeError
        else if (case bias of None \<Rightarrow> False | Some bs \<Rightarrow> shape1 bs \<noteq> dm) then Inl RuntimeError
        else if int l + 2 * padding < int width then Inl RuntimeError
        else Inr \<lparr>shape3 = (b, dm, l + 2 * nat padding + 1 - width),
                 data3 = map (\<lambda>xb. map (\<lambda>d. conv1d_row (data2 weight ! d)
                                              (map_option (\<lambda>bs. data1 bs ! d) bias)
                                              (nat padding) (xb ! d))
                                       [0..<dm])
                             (data3 x)\<rparr>)"

text \<open>The slices \<^verbatim>\<open>out[..., :n]\<close> and \<^verbatim>\<open>out[..., n:]\<close> for \<open>n \<ge> 0\<close>.\<close>

definition slice_to :: "nat \<Rightarrow> tensor3 \<Rightarrow> tensor3" where
  "slice_to n t = (case shape3 t of (b, d, l) \<Rightarrow>
     \<lparr>shape3 = (b, d, min n l), data3 = map (map (take n)) (data3 t)\<rparr>)"

definition slice_from :: "nat \<Rightarrow> tensor3 \<Rightarrow> tensor3" where
  "slice_from n t = (case shape3 t of (b, d, l) \<Rightarrow>
     \<lparr>shape3 = (b, d, l - n), data3 = map (map (drop n)) (data3 t)\<rparr>)"

section \<open>The reference forward: \<^verbatim>\<open>causal_conv1d_ref\<close>\<close>

definition causal_conv1d_ref ::
  "tensor3 \<Rightarrow> tensor2 \<Rightarrow> tensor1 option \<Rightarrow> tensor3 option \<Rightarrow> string option \<Rightarrow> error + tensor3" where
  "causal_conv1d_ref x weight bias hidden act =
     (if \<not> activation_ok act then Inl NotImplementedError
      else case (case hidden of None \<Rightarrow> Inr x | Some h \<Rightarrow> cat_last h x) of
        Inl e \<Rightarrow> Inl e
      | Inr xc \<Rightarrow>
          (case shape3 xc of (b, c, seqlen) \<Rightarrow> case shape2 weight of (dm, width) \<Rightarrow>
             case conv1d_depthwise xc weight bias (int width - 1) of
               Inl e \<Rightarrow> Inl e
             | Inr out0 \<Rightarrow>
                 let out1 = slice_to seqlen out0;
                     out2 = (case hidden of None \<Rightarrow> out1
                             | Some h \<Rightarrow> slice_from (snd (snd (shape3 h))) out1)
                 in Inr (if act = None then out2 else map_tensor3 silu out2)))"

section \<open>The reference update: \<^verbatim>\<open>causal_conv1d_update_ref\<close>\<close>

text \<open>
  The function mutates \<^verbatim>\<open>conv_state\<close> in place, so the model returns the state buffer as
  it is when the call ends, next to the returned value or the raised error.
  \<^verbatim>\<open>torch.roll(conv_state, shifts=-1, dims=-1)\<close> rotates every window left by one;
  \<^verbatim>\<open>conv_state[:, :, -1] = x\<close> raises IndexError on a window axis of size zero;
  \<^verbatim>\<open>out += bias\<close> broadcasts a one-element bias and raises RuntimeError for a bias
  whose size is neither \<open>dim\<close> nor one.
\<close>

definition bias_at :: "tensor1 \<Rightarrow> nat \<Rightarrow> real" where
  "bias_at bs d = (if shape1 bs = 1 then data1 bs ! 0 else data1 bs ! d)"

definition causal_conv1d_update_ref ::
  "tensor2 \<Rightarrow> tensor3 \<Rightarrow> tensor2 \<Rightarrow> tensor1 option \<Rightarrow> string option
     \<Rightarrow> (error + tensor2) \<times> tensor3" where
  "causal_conv1d_update_ref x conv_state weight bias act =
     (if \<not> activation_ok act then (Inl NotImplementedError, conv_state)
      else case shape2 x of (batch, dm) \<Rightarrow>
        let width = snd (shape2 weight) in
        if shape3 conv_state \<noteq> (batch, dm, width) then (Inl AssertionError, conv_state)
        else if shape2 weight \<noteq> (dm, width) then (Inl AssertionError, conv_state)
        else
          let rolled = conv_state\<lparr>data3 := map (map rotate1) (data3 conv_state)\<rparr> in
          if width = 0 then (Inl IndexError, rolled)
          else
            let state' = rolled\<lparr>data3 :=
                   map2 (map2 (\<lambda>r v. r[width - 1 := v])) (data3 rolled) (data2 x)\<rparr>;
                out = \<lparr>shape2 = (batch, dm),
                       data2 = map (\<lambda>p. map2 (\<lambda>r w. sum_list (map2 (*) r w)) p (data2 weight))
                                   (data3 state')\<rparr>
            in case bias of
                 None \<Rightarrow> (Inr (if act = None then out else map_tensor2 silu out), state')
               | Some bs \<Rightarrow>
                   if shape1 bs \<noteq> dm \<and> shape1 bs \<noteq> 1 then (Inl RuntimeError, state')
                   else
                     let out' = out\<lparr>data2 :=
                           map (\<lambda>r. map2 (\<lambda>v d. v + bias_at bs d) r [0..<dm]) (data2 out)\<rparr>
                     in (Inr (if act = None then out' else map_tensor2 silu out'), state'))"

section \<open>The wrappers around the compiled extension\<close>

text \<open>
  \<^verbatim>\<open>CausalConv1dFn\<close> and \<^verbatim>\<open>causal_conv1d_update\<close> only inspect the layout of their
  tensors and hand them to the functions of \<^verbatim>\<open>causal_conv1d_cuda\<close>, which are not part
  of the Python module: the model takes each of them as a parameter. A tensor is here its
  sizes, its strides and its contents, which the wrappers never read. An exception raised
  by the wrapper itself is kept apart from one that comes out of the extension.
\<close>

datatype 'e raised = Raised error | FromExtension 'e

record 'a strided =
  sizes :: "nat list"
  strides :: "int list"
  contents :: 'a

text \<open>\<^verbatim>\<open>t.stride(i)\<close> raises IndexError when the tensor has no dimension \<open>i\<close>.\<close>

definition stride :: "'a strided \<Rightarrow> nat \<Rightarrow> error + int" where
  "stride t i = (if i < length (strides t) then Inr (strides t ! i) else Inl IndexError)"

text \<open>
  \<^verbatim>\<open>t.is_contiguous()\<close>: an empty tensor is contiguous; otherwise every dimension of
  size other than one has the stride of the row-major layout. \<^verbatim>\<open>t.contiguous()\<close>
  returns \<open>t\<close> itself when it is contiguous, and otherwise a tensor of the same sizes and
  contents with the strides of a freshly allocated one.
\<close>

fun is_contiguous_dims :: "nat list \<Rightarrow> int list \<Rightarrow> bool" where
  "is_contiguous_dims [] ss = True"
| "is_contiguous_dims (n # ns) [] = False"
| "is_contiguous_dims (n # ns) (s # ss) =
     ((n = 1 \<or> s = int (prod_list ns)) \<and> is_contiguous_dims ns ss)"

fun contiguous_strides :: "nat list \<Rightarrow> int list" where
  "contiguous_strides [] = []"
| "contiguous_strides (n # ns) = int (prod_list (map (max 1) ns)) # contiguous_strides ns"

definition is_contiguous :: "'a strided \<Rightarrow> bool" where
  "is_contiguous t = (prod_list (sizes t) = 0 \<or> is_contiguous_dims (sizes t) (strides t))"

definition contiguous :: "'a strided \<Rightarrow> 'a strided" where
  "contiguous t = (if is_contiguous t then t else t\<lparr>strides := contiguous_strides (sizes t)\<rparr>)"

text \<open>The test \<^verbatim>\<open>t.stride(2) != 1 and t.stride(1) != 1\<close>, evaluated left to right.\<close>

definition neither_unit_stride :: "'a strided \<Rightarrow> error + bool" where
  "neither_unit_stride t =
     (case stride t 2 of
        Inl e \<Rightarrow> Inl e
      | Inr s2 \<Rightarrow>
          if s2 \<noteq> 1
          then (case stride t 1 of Inl e \<Rightarrow> Inl e | Inr s1 \<Rightarrow> Inr (s1 \<noteq> 1))
          else Inr False)"

text \<open>
  The autograd context: what \<^verbatim>\<open>ctx.save_for_backward\<close> stored (\<open>None\<close> for a Python
  \<^verbatim>\<open>None\<close>) and the attribute \<^verbatim>\<open>ctx.activation\<close> (\<open>None\<close> while it is not set).
\<close>

record 'a ctx =
  saved_tensors :: "'a strided option list"
  activation :: "bool option"

definition CausalConv1dFn_forward ::
  "('a strided \<Rightarrow> 'a strided \<Rightarrow> 'a strided option \<Rightarrow> 'a strided option
      \<Rightarrow> 'a strided option \<Rightarrow> bool \<Rightarrow> 'e + 'o)
     \<Rightarrow> 'a ctx \<Rightarrow> 'a strided \<Rightarrow> 'a strided \<Rightarrow> 'a strided option \<Rightarrow> 'a strided option
     \<Rightarrow> 'a strided option \<Rightarrow> string option \<Rightarrow> ('e raised + 'o) \<times> 'a ctx" where
  "CausalConv1dFn_forward causal_conv1d_fwd ctx x weight bias hidden seq_idx act =
     (if \<not> activation_ok act then (Inl (Raised NotImplementedError), ctx)
      else case neither_unit_stride x of
        Inl e \<Rightarrow> (Inl (Raised e), ctx)
      | Inr c \<Rightarrow>
          let x' = (if c then contiguous x else x);
              bias' = map_option contiguous bias;
              seq_idx' = map_option contiguous seq_idx;
              flag = (act \<in> set [Some ''silu'', Some ''swish'']);
              ctx' = ctx\<lparr>saved_tensors := [Some x', Some weight, bias', seq_idx'],
                         activation := Some flag\<rparr>
          in (case causal_conv1d_fwd x' weight bias' hidden seq_idx' flag of
                Inl e \<Rightarrow> Inl (FromExtension e)
              | Inr out \<Rightarrow> Inr out,
              ctx'))"

text \<open>
  \<^verbatim>\<open>backward\<close> returns the tuple
  \<^verbatim>\<open>dx, dweight, dbias if bias is not None else None, None, None\<close>: the conditional
  expression binds tighter than the commas, so it is the third of five entries.
\<close>

definition CausalConv1dFn_backward ::
  "('a strided option \<Rightarrow> 'a strided option \<Rightarrow> 'a strided option \<Rightarrow> 'a strided
      \<Rightarrow> 'a strided option \<Rightarrow> 'a strided option \<Rightarrow> bool
      \<Rightarrow> 'e + ('g option \<times> 'g option \<times> 'g option))
     \<Rightarrow> 'a ctx \<Rightarrow> 'a strided \<Rightarrow> 'e raised + 'g option list" where
  "CausalConv1dFn_backward causal_conv1d_bwd ctx dout =
     (case saved_tensors ctx of
        [x, weight, bias, seq_idx] \<Rightarrow>
          (case neither_unit_stride dout of
             Inl e \<Rightarrow> Inl (Raised e)
           | Inr c \<Rightarrow>
               let dout' = (if c then contiguous dout else dout) in
               (case activation ctx of
                  None \<Rightarrow> Inl (Raised AttributeError)
                | Some flag \<Rightarrow>
                    (case causal_conv1d_bwd x weight bias dout' seq_idx None flag of
                       Inl e \<Rightarrow> Inl (FromExtension e)
                     | Inr (dx, dweight, dbias) \<Rightarrow>
                         Inr [dx, dweight, if bias \<noteq> None then dbias else None, None, None])))
      | _ \<Rightarrow> Inl (Raised ValueError))"

text \<open>
  The inputs of \<^verbatim>\<open>forward(ctx, x, weight, bias=None, hidden=None, seq_idx=None,
  activation=None)\<close> after the context, in the order of its signature. Autograd matches the
  tuple that \<^verbatim>\<open>backward\<close> returns with these inputs by position, one entry for each:
  \<open>gradient_slot\<close> is the entry that falls to an input, and \<open>None\<close> when the tuple has no
  entry at its position.
\<close>

definition forward_inputs :: "string list" where
  "forward_inputs = [''x'', ''weight'', ''bias'', ''hidden'', ''seq_idx'', ''activation'']"

definition gradient_slot :: "string \<Rightarrow> 'g option list \<Rightarrow> 'g option option" where
  "gradient_slot name grads = map_of (zip forward_inputs grads) name"

text \<open>
  \<^verbatim>\<open>causal_conv1d_update\<close>: the extension's update mutates \<^verbatim>\<open>conv_state\<close>, so it returns
  the buffer next to its result, as the reference update does.
\<close>

definition causal_conv1d_update ::
  "('x \<Rightarrow> 's \<Rightarrow> 'w \<Rightarrow> 'b option \<Rightarrow> bool \<Rightarrow> ('e + 'o) \<times> 's)
     \<Rightarrow> 'x \<Rightarrow> 's \<Rightarrow> 'w \<Rightarrow> 'b option \<Rightarrow> string option \<Rightarrow> ('e raised + 'o) \<times> 's" where
  "causal_conv1d_update cuda_update x conv_state weight bias act =
     (if \<not> activation_ok act then (Inl (Raised NotImplementedError), conv_state)
      else case cuda_update x conv_state weight bias (act \<in> set [Some ''silu'', Some ''swish'']) of
        (Inl e, conv_state') \<Rightarrow> (Inl (FromExtension e), conv_state')
      | (Inr out, conv_state') \<Rightarrow> (Inr out, conv_state'))"

section \<open>Vocabulary of the properties\<close>

text \<open>A tensor of a given shape: well formed, with that shape.\<close>

definition has_shape1 :: "nat \<Rightarrow> tensor1 \<Rightarrow> bool" where
  "has_shape1 n t = (wf1 t \<and> shape1 t = n)"

definition has_shape2 :: "nat \<Rightarrow> nat \<Rightarrow> tensor2 \<Rightarrow> bool" where
  "has_shape2 n m t = (wf2 t \<and> shape2 t = (n, m))"

definition has_shape3 :: "nat \<Rightarrow> nat \<Rightarrow> nat \<Rightarrow> tensor3 \<Rightarrow> bool" where
  "has_shape3 n m l t = (wf3 t \<and> shape3 t = (n, m, l))"

text \<open>
  The source sequence of one (batch, channel) stream, indexed by signal time: position
  \<open>i \<ge> 0\<close> is sample \<open>i\<close> of the signal, the \<open>S\<close> samples of the initial state sit at
  positions \<open>-S, ..., -1\<close>, and every earlier position is zero.
\<close>

definition src_row :: "real list \<Rightarrow> real list \<Rightarrow> int \<Rightarrow> real" where
  "src_row hs xs i =
     (if 0 \<le> i then xs ! nat i
      else if - int (length hs) \<le> i then hs ! nat (int (length hs) + i)
      else 0)"

definition hid_row :: "tensor3 option \<Rightarrow> nat \<Rightarrow> nat \<Rightarrow> real list" where
  "hid_row hidden b d = (case hidden of None \<Rightarrow> [] | Some h \<Rightarrow> data3 h ! b ! d)"

definition src :: "tensor3 \<Rightarrow> tensor3 option \<Rightarrow> nat \<Rightarrow> nat \<Rightarrow> int \<Rightarrow> real" where
  "src x hidden b d i = src_row (hid_row hidden b d) (data3 x ! b ! d) i"

definition bias_term :: "tensor1 option \<Rightarrow> nat \<Rightarrow> real" where
  "bias_term bias d = (case bias of None \<Rightarrow> 0 | Some bs \<Rightarrow> data1 bs ! d)"

definition activate :: "string option \<Rightarrow> real \<Rightarrow> real" where
  "activate act v = (if act = Some ''silu'' \<or> act = Some ''swish'' then silu v else v)"

text \<open>The causal window sum of one stream at time \<open>t\<close>, and the full output element.\<close>

definition causal_sum :: "real list \<Rightarrow> real list \<Rightarrow> real list \<Rightarrow> nat \<Rightarrow> real" where
  "causal_sum w hs xs t =
     (\<Sum>k<length w. w ! k * src_row hs xs (int t - (int (length w) - 1) + int k))"

definition causal_out ::
  "tensor3 \<Rightarrow> tensor2 \<Rightarrow> tensor1 option \<Rightarrow> tensor3 option \<Rightarrow> string option
     \<Rightarrow> nat \<Rightarrow> nat \<Rightarrow> nat \<Rightarrow> real" where
  "causal_out x weight bias hidden act b d t =
     activate act (causal_sum (data2 weight ! d) (hid_row hidden b d) (data3 x ! b ! d) t
                   + bias_term bias d)"

text \<open>
  Streaming: the time step \<^verbatim>\<open>x[:, :, t]\<close>, the all-zero state buffer, and the loop that
  feeds a list of time steps through \<^verbatim>\<open>causal_conv1d_update_ref\<close>, threading the state
  buffer and stopping at the first exception.
\<close>

definition timestep :: "tensor3 \<Rightarrow> nat \<Rightarrow> tensor2" where
  "timestep x t = (case shape3 x of (b, d, l) \<Rightarrow>
     \<lparr>shape2 = (b, d), data2 = map (map (\<lambda>r. r ! t)) (data3 x)\<rparr>)"

definition zeros3 :: "nat \<Rightarrow> nat \<Rightarrow> nat \<Rightarrow> tensor3" where
  "zeros3 n m l = \<lparr>shape3 = (n, m, l), data3 = replicate n (replicate m (replicate l 0))\<rparr>"

fun stream_update_ref ::
  "tensor2 list \<Rightarrow> tensor3 \<Rightarrow> tensor2 \<Rightarrow> tensor1 option \<Rightarrow> string option
     \<Rightarrow> (error + tensor2 list) \<times> tensor3" where
  "stream_update_ref [] conv_state weight bias act = (Inr [], conv_state)"
| "stream_update_ref (x # xs) conv_state weight bias act =
     (case causal_conv1d_update_ref x conv_state weight bias act of
        (Inl e, conv_state') \<Rightarrow> (Inl e, conv_state')
      | (Inr out, conv_state') \<Rightarrow>
          (case stream_update_ref xs conv_state' weight bias act of
             (Inl e, conv_state'') \<Rightarrow> (Inl e, conv_state'')
           | (Inr outs, conv_state'') \<Rightarrow> (Inr (out # outs), conv_state'')))"

text \<open>
  The window the update leaves behind: the old window without its first slot, followed by
  the new sample. And the state buffer that streaming a signal from the zero buffer has
  reached before time \<open>t\<close>: the last \<open>W\<close> source samples before \<open>t\<close>.
\<close>

definition shifted :: "tensor3 \<Rightarrow> tensor2 \<Rightarrow> nat \<Rightarrow> nat \<Rightarrow> real list" where
  "shifted conv_state x b d = tl (data3 conv_state ! b ! d) @ [data2 x ! b ! d]"

definition window_at :: "real list \<Rightarrow> nat \<Rightarrow> nat \<Rightarrow> real list" where
  "window_at xs W t = map (\<lambda>k. src_row [] xs (int t - int W + int k)) [0..<W]"

definition state_at :: "nat \<Rightarrow> nat \<Rightarrow> nat \<Rightarrow> tensor3 \<Rightarrow> nat \<Rightarrow> tensor3" where
  "state_at B D W x t =
     \<lparr>shape3 = (B, D, W),
      data3 = map (\<lambda>b. map (\<lambda>d. window_at (data3 x ! b ! d) W t) [0..<D]) [0..<B]\<rparr>"

section \<open>Closed form of the reference forward\<close>

lemma length_conv1d_row:
  "length (conv1d_row w b p xs) = length xs + 2 * p + 1 - length w"
  by (simp add: conv1d_row_def Let_def)

lemma sum_list_upt_eq_sum: "(\<Sum>k\<leftarrow>[0..<n]. f k) = (\<Sum>k<n. f k)"
  by (simp add: interv_sum_list_conv_sum_set_nat lessThan_atLeast0)

lemma conv1d_row_nth:
  assumes "j + length w \<le> length xs + 2 * p"
  shows "conv1d_row w b p xs ! j =
    (\<Sum>k<length w. w ! k * (replicate p 0 @ xs @ replicate p 0) ! (j + k))
      + (case b of None \<Rightarrow> 0 | Some c \<Rightarrow> c)"
proof -
  have "j < length (replicate p (0::real) @ xs @ replicate p 0) + 1 - length w"
    using assms by simp
  then have "[0..<length (replicate p (0::real) @ xs @ replicate p 0) + 1 - length w] ! j = j"
    by (metis add_0 nth_upt)
  with \<open>j < _\<close> show ?thesis
    by (cases b) (simp_all add: conv1d_row_def Let_def sum_list_upt_eq_sum del: length_append length_replicate)
qed

lemma padded_nth_src:
  assumes "k < W" "t < length xs"
  shows "(replicate (W - 1) 0 @ (hs @ xs) @ replicate (W - 1) 0) ! (length hs + t + k)
         = src_row hs xs (int t - (int W - 1) + int k)"
proof -
  define i where "i = length hs + t + k"
  define z where "z = int t - (int W - 1) + int k"
  consider (pad) "i < W - 1"
    | (hid) "W - 1 \<le> i" "i - (W - 1) < length hs"
    | (sig) "W - 1 \<le> i" "length hs \<le> i - (W - 1)"
    by linarith
  then have "(replicate (W - 1) 0 @ (hs @ xs) @ replicate (W - 1) 0) ! i = src_row hs xs z"
  proof cases
    case pad
    with assms have "z < - int (length hs)" "\<not> 0 \<le> z"
      unfolding i_def z_def by linarith+
    then have "src_row hs xs z = 0" by (simp add: src_row_def)
    moreover from pad have "(replicate (W - 1) 0 @ (hs @ xs) @ replicate (W - 1) 0) ! i = 0"
      by (simp add: nth_append)
    ultimately show ?thesis by simp
  next
    case hid
    with assms have "\<not> 0 \<le> z" "- int (length hs) \<le> z" "nat (int (length hs) + z) = i - (W - 1)"
      unfolding i_def z_def by linarith+
    then have "src_row hs xs z = hs ! (i - (W - 1))" by (simp add: src_row_def)
    moreover from hid have "(replicate (W - 1) 0 @ (hs @ xs) @ replicate (W - 1) 0) ! i
        = hs ! (i - (W - 1))"
      by (simp add: nth_append)
    ultimately show ?thesis by simp
  next
    case sig
    with assms have z: "0 \<le> z" "nat z = i - (W - 1) - length hs"
      unfolding i_def z_def by linarith+
    have "i - (W - 1) - length hs < length xs"
      using sig assms unfolding i_def by linarith
    with sig have "(replicate (W - 1) 0 @ (hs @ xs) @ replicate (W - 1) 0) ! i
        = xs ! (i - (W - 1) - length hs)"
      by (simp add: nth_append)
    moreover from z have "src_row hs xs z = xs ! (i - (W - 1) - length hs)"
      by (simp add: src_row_def)
    ultimately show ?thesis by simp
  qed
  then show ?thesis unfolding i_def z_def .
qed

lemma causal_row:
  assumes "0 < length w"
  shows "drop (length hs) (take (length hs + length xs) (conv1d_row w b (length w - 1) (hs @ xs)))
    = map (\<lambda>t. causal_sum w hs xs t + (case b of None \<Rightarrow> 0 | Some c \<Rightarrow> c)) [0..<length xs]"
proof (rule nth_equalityI)
  show "length (drop (length hs) (take (length hs + length xs) (conv1d_row w b (length w - 1) (hs @ xs))))
    = length (map (\<lambda>t. causal_sum w hs xs t + (case b of None \<Rightarrow> 0 | Some c \<Rightarrow> c)) [0..<length xs])"
    using assms by (simp add: length_conv1d_row)
next
  fix t
  assume "t < length (drop (length hs) (take (length hs + length xs) (conv1d_row w b (length w - 1) (hs @ xs))))"
  then have t: "t < length xs" using assms by (simp add: length_conv1d_row)
  have "conv1d_row w b (length w - 1) (hs @ xs) ! (length hs + t) =
     (\<Sum>k<length w. w ! k * (replicate (length w - 1) 0 @ (hs @ xs) @ replicate (length w - 1) 0) ! (length hs + t + k))
      + (case b of None \<Rightarrow> 0 | Some c \<Rightarrow> c)"
    using t assms by (intro conv1d_row_nth) simp
  also have "(\<Sum>k<length w. w ! k * (replicate (length w - 1) 0 @ (hs @ xs) @ replicate (length w - 1) 0) ! (length hs + t + k))
     = causal_sum w hs xs t"
    unfolding causal_sum_def
  proof (rule sum.cong[OF refl])
    fix k assume "k \<in> {..<length w}"
    then have "k < length w" by simp
    from padded_nth_src[OF this t, of hs] show "w ! k * (replicate (length w - 1) 0 @ (hs @ xs) @ replicate (length w - 1) 0) ! (length hs + t + k) =
         w ! k * src_row hs xs (int t - (int (length w) - 1) + int k)"
      by (simp only:)
  qed
  finally show "drop (length hs) (take (length hs + length xs) (conv1d_row w b (length w - 1) (hs @ xs))) ! t
     = map (\<lambda>t. causal_sum w hs xs t + (case b of None \<Rightarrow> 0 | Some c \<Rightarrow> c)) [0..<length xs] ! t"
    using t assms by (simp add: length_conv1d_row)
qed

lemma wf3_lengths:
  assumes "wf3 t" "shape3 t = (B, D, L)"
  shows "length (data3 t) = B"
    and "b < B \<Longrightarrow> length (data3 t ! b) = D"
    and "b < B \<Longrightarrow> d < D \<Longrightarrow> length (data3 t ! b ! d) = L"
  using assms by (auto simp: wf3_def list_all_length)

lemma wf2_lengths:
  assumes "wf2 t" "shape2 t = (D, W)"
  shows "length (data2 t) = D"
    and "d < D \<Longrightarrow> length (data2 t ! d) = W"
  using assms by (auto simp: wf2_def list_all_length)

lemma activate_ok:
  "activation_ok act \<Longrightarrow> activate act = (if act = None then (\<lambda>v. v) else silu)"
  by (rule ext) (auto simp: activation_ok_def activate_def)

lemma cat_last_ok:
  assumes "wf3 x" "shape3 x = (B, D, L)" "wf3 h" "shape3 h = (B, D, S)"
  shows "cat_last h x = Inr \<lparr>shape3 = (B, D, S + L),
     data3 = map (\<lambda>b. map (\<lambda>d. data3 h ! b ! d @ data3 x ! b ! d) [0..<D]) [0..<B]\<rparr>"
proof -
  have "map2 (map2 (@)) (data3 h) (data3 x)
      = map (\<lambda>b. map (\<lambda>d. data3 h ! b ! d @ data3 x ! b ! d) [0..<D]) [0..<B]"
  proof (rule nth_equalityI)
    show "length (map2 (map2 (@)) (data3 h) (data3 x))
        = length (map (\<lambda>b. map (\<lambda>d. data3 h ! b ! d @ data3 x ! b ! d) [0..<D]) [0..<B])"
      using wf3_lengths(1)[OF assms(1,2)] wf3_lengths(1)[OF assms(3,4)] by simp
  next
    fix b assume "b < length (map2 (map2 (@)) (data3 h) (data3 x))"
    then have b: "b < B"
      using wf3_lengths(1)[OF assms(1,2)] wf3_lengths(1)[OF assms(3,4)] by simp
    have lx: "length (data3 x ! b) = D" and lh: "length (data3 h ! b) = D"
      using wf3_lengths(2)[OF assms(1,2) b] wf3_lengths(2)[OF assms(3,4) b] by simp_all
    have "map2 (@) (data3 h ! b) (data3 x ! b) = map (\<lambda>d. data3 h ! b ! d @ data3 x ! b ! d) [0..<D]"
      by (rule nth_equalityI) (simp_all add: lx lh)
    then show "map2 (map2 (@)) (data3 h) (data3 x) ! b
        = map (\<lambda>b. map (\<lambda>d. data3 h ! b ! d @ data3 x ! b ! d) [0..<D]) [0..<B] ! b"
      using b wf3_lengths(1)[OF assms(1,2)] wf3_lengths(1)[OF assms(3,4)] by simp
  qed
  then show ?thesis using assms(2,4) by (simp add: cat_last_def)
qed

lemma conv_pipeline:
  assumes xc: "shape3 xc = (B, D, N)"
      "data3 xc = map (\<lambda>b. map (\<lambda>d. R b d) [0..<D]) [0..<B]"
    and w: "shape2 weight = (D, W)"
    and bias: "pred_option (has_shape1 D) bias"
    and pos: "0 < D" "0 < W" "0 < N"
  shows "conv1d_depthwise xc weight bias (int W - 1) =
     Inr \<lparr>shape3 = (B, D, N + W - 1),
          data3 = map (\<lambda>b. map (\<lambda>d. conv1d_row (data2 weight ! d)
                                      (map_option (\<lambda>bs. data1 bs ! d) bias) (W - 1) (R b d))
                               [0..<D]) [0..<B]\<rparr>"
proof -
  have b: "\<not> (case bias of None \<Rightarrow> False | Some bs \<Rightarrow> shape1 bs \<noteq> D)"
    using bias by (cases bias) (simp_all add: has_shape1_def)
  have n: "nat (int W - 1) = W - 1" by simp
  have sz: "N + 2 * (W - 1) + 1 - W = N + W - 1" using pos by simp
  have "\<not> int N + 2 * (int W - 1) < int W" using pos by simp
  with b pos show ?thesis
    unfolding conv1d_depthwise_def xc w
    by (simp add: n sz del: of_nat_diff cong: map_cong)
qed

lemma hidden_cat:
  assumes x: "has_shape3 B D L x"
    and hid: "pred_option (has_shape3 B D S) hidden"
  obtains xc N where
    "(case hidden of None \<Rightarrow> Inr x | Some h \<Rightarrow> cat_last h x) = Inr xc"
    "shape3 xc = (B, D, N)"
    "N = (case hidden of None \<Rightarrow> 0 | Some h \<Rightarrow> S) + L"
    "data3 xc = map (\<lambda>b. map (\<lambda>d. hid_row hidden b d @ data3 x ! b ! d) [0..<D]) [0..<B]"
proof (cases hidden)
  case None
  have "data3 x = map (\<lambda>b. map (\<lambda>d. data3 x ! b ! d) [0..<D]) [0..<B]"
  proof (rule nth_equalityI)
    show "length (data3 x) = length (map (\<lambda>b. map (\<lambda>d. data3 x ! b ! d) [0..<D]) [0..<B])"
      using x by (simp add: has_shape3_def wf3_lengths(1))
  next
    fix b assume "b < length (data3 x)"
    then have b: "b < B" using x by (simp add: has_shape3_def wf3_lengths(1))
    then have "length (data3 x ! b) = D" using x by (simp add: has_shape3_def wf3_lengths(2))
    then have "data3 x ! b = map (\<lambda>d. data3 x ! b ! d) [0..<D]"
      by (intro nth_equalityI) simp_all
    with b show "data3 x ! b = map (\<lambda>b. map (\<lambda>d. data3 x ! b ! d) [0..<D]) [0..<B] ! b"
      by simp
  qed
  with None x show ?thesis
    by (intro that[of x L]) (simp_all add: hid_row_def has_shape3_def)
next
  case (Some h)
  with hid have h: "wf3 h" "shape3 h = (B, D, S)" by (simp_all add: has_shape3_def)
  from x have x': "wf3 x" "shape3 x = (B, D, L)" by (simp_all add: has_shape3_def)
  show ?thesis
    by (rule that[of "\<lparr>shape3 = (B, D, S + L),
          data3 = map (\<lambda>b. map (\<lambda>d. data3 h ! b ! d @ data3 x ! b ! d) [0..<D]) [0..<B]\<rparr>" "S + L"])
      (simp_all add: Some cat_last_ok[OF x' h] hid_row_def)
qed

lemma ref_activate:
  "activation_ok act \<Longrightarrow>
     (if act = None then t else map_tensor3 silu t) = map_tensor3 (activate act) t"
  by (cases act) (simp_all add: activate_ok map_tensor3_def)

lemma causal_conv1d_ref_closed:
  assumes x: "has_shape3 B D L x"
    and w: "has_shape2 D W weight"
    and bias: "pred_option (has_shape1 D) bias"
    and hid: "pred_option (has_shape3 B D S) hidden"
    and act: "activation_ok act"
    and pos: "0 < D" "0 < W" "0 < L"
  shows "causal_conv1d_ref x weight bias hidden act =
     Inr \<lparr>shape3 = (B, D, L),
          data3 = map (\<lambda>b. map (\<lambda>d. map (causal_out x weight bias hidden act b d) [0..<L])
                               [0..<D]) [0..<B]\<rparr>"
proof -
  define S' where "S' = (case hidden of None \<Rightarrow> 0 | Some h \<Rightarrow> S)"
  from hidden_cat[OF x hid] obtain xc N where
    xc: "(case hidden of None \<Rightarrow> Inr x | Some h \<Rightarrow> cat_last h x) = Inr xc"
      "shape3 xc = (B, D, N)" "N = S' + L"
      "data3 xc = map (\<lambda>b. map (\<lambda>d. hid_row hidden b d @ data3 x ! b ! d) [0..<D]) [0..<B]"
    unfolding S'_def by blast
  from w have w': "shape2 weight = (D, W)" "wf2 weight" by (simp_all add: has_shape2_def)
  have N: "0 < N" using xc(3) pos by simp
  note conv = conv_pipeline[OF xc(2) xc(4) w'(1) bias pos(1,2) N]
  have hS: "(case hidden of None \<Rightarrow> 0 | Some h \<Rightarrow> snd (snd (shape3 h))) = S'"
    using hid by (cases hidden) (simp_all add: S'_def has_shape3_def)
  have row: "map (activate act) (drop S' (take N (conv1d_row (data2 weight ! d)
           (map_option (\<lambda>bs. data1 bs ! d) bias) (W - 1) (hid_row hidden b d @ data3 x ! b ! d))))
       = map (causal_out x weight bias hidden act b d) [0..<L]"
    if "b < B" "d < D" for b d
  proof -
    have lw: "length (data2 weight ! d) = W" using wf2_lengths(2)[OF w'(2,1) that(2)] .
    have lx: "length (data3 x ! b ! d) = L"
      using x that by (simp add: has_shape3_def wf3_lengths(3))
    have lh: "length (hid_row hidden b d) = S'"
      using hid that by (cases hidden) (simp_all add: hid_row_def S'_def has_shape3_def wf3_lengths(3))
    have bt: "(case map_option (\<lambda>bs. data1 bs ! d) bias of None \<Rightarrow> 0 | Some c \<Rightarrow> c) = bias_term bias d"
      by (cases bias) (simp_all add: bias_term_def)
    from causal_row[of "data2 weight ! d" "hid_row hidden b d" "data3 x ! b ! d"
        "map_option (\<lambda>bs. data1 bs ! d) bias"] pos(2)
    show ?thesis
      unfolding lw lx lh bt xc(3) causal_out_def by (simp add: comp_def)
  qed
  have "causal_conv1d_ref x weight bias hidden act =
     Inr \<lparr>shape3 = (B, D, L),
          data3 = map (\<lambda>b. map (\<lambda>d. map (activate act) (drop S' (take N (conv1d_row (data2 weight ! d)
           (map_option (\<lambda>bs. data1 bs ! d) bias) (W - 1) (hid_row hidden b d @ data3 x ! b ! d)))))
                               [0..<D]) [0..<B]\<rparr>"
    using act pos xc(3) hS
    unfolding causal_conv1d_ref_def xc(1) ref_activate[OF act]
    by (cases hidden)
      (simp_all add: xc(2) w'(1) conv slice_to_def slice_from_def map_tensor3_def
        comp_def S'_def Let_def del: of_nat_diff)
  also have "\<dots> = Inr \<lparr>shape3 = (B, D, L),
          data3 = map (\<lambda>b. map (\<lambda>d. map (causal_out x weight bias hidden act b d) [0..<L])
                               [0..<D]) [0..<B]\<rparr>"
    using row by simp
  finally show ?thesis .
qed

section \<open>The reference forward computes the causal window sum\<close>

text \<open>
  Claim C1. For a signal of shape \<open>(B, D, L)\<close>, a weight of shape \<open>(D, W)\<close>, an optional
  bias of shape \<open>(D)\<close> and an optional initial state of shape \<open>(B, D, S)\<close>,
  \<^verbatim>\<open>causal_conv1d_ref\<close> returns a tensor of shape \<open>(B, D, L)\<close> whose element
  \<open>(b, d, t)\<close> is the sum over the taps \<open>k < W\<close> of \<open>weight[d, k] * src[t - (W - 1) + k]\<close>,
  plus \<open>bias[d]\<close> when there is a bias, passed through silu when the activation is
  \<^verbatim>\<open>"silu"\<close> or \<^verbatim>\<open>"swish"\<close>. Here \<open>src\<close> is the initial state followed by the signal,
  indexed by signal time, and zero before its start. The dimensions \<open>D\<close>, \<open>W\<close> and
  \<open>L\<close> are positive: PyTorch's convolution rejects zero groups and a negative padding.
\<close>

theorem causal_conv1d_ref_formula:
  assumes "has_shape3 B D L x"
    and "has_shape2 D W weight"
    and "pred_option (has_shape1 D) bias"
    and "pred_option (has_shape3 B D S) hidden"
    and "activation_ok act"
    and "0 < D" "0 < W" "0 < L"
  shows "\<exists>out. causal_conv1d_ref x weight bias hidden act = Inr out \<and> has_shape3 B D L out \<and>
     (\<forall>b<B. \<forall>d<D. \<forall>t<L. data3 out ! b ! d ! t =
        activate act ((\<Sum>k<W. data2 weight ! d ! k * src x hidden b d (int t - (int W - 1) + int k))
                      + bias_term bias d))"
proof -
  let ?out = "\<lparr>shape3 = (B, D, L),
          data3 = map (\<lambda>b. map (\<lambda>d. map (causal_out x weight bias hidden act b d) [0..<L])
                               [0..<D]) [0..<B]\<rparr>"
  have eq: "causal_conv1d_ref x weight bias hidden act = Inr ?out"
    using assms by (rule causal_conv1d_ref_closed)
  have shape: "has_shape3 B D L ?out"
    by (simp add: has_shape3_def wf3_def list_all_iff)
  have elems: "data3 ?out ! b ! d ! t =
        activate act ((\<Sum>k<W. data2 weight ! d ! k * src x hidden b d (int t - (int W - 1) + int k))
                      + bias_term bias d)" if "b < B" "d < D" "t < L" for b d t
  proof -
    have "length (data2 weight ! d) = W"
      using assms(2) that(2) by (simp add: has_shape2_def wf2_lengths(2))
    then show ?thesis
      using that by (simp add: causal_out_def causal_sum_def src_def)
  qed
  from eq shape elems show ?thesis by blast
qed

theorem causal_conv1d_ref_formula_witness:
  "\<exists>out. causal_conv1d_ref \<lparr>shape3 = (1, 2, 4), data3 = [[[1, 2, 3, 4], [5, 6, 7, 8]]]\<rparr>
            \<lparr>shape2 = (2, 3), data2 = [[1, 10, 100], [2, 3, 4]]\<rparr>
            (Some \<lparr>shape1 = 2, data1 = [1000, 1 / 2]\<rparr>)
            (Some \<lparr>shape3 = (1, 2, 2), data3 = [[[7, 9], [1, 1]]]\<rparr>) None = Inr out
       \<and> has_shape3 1 2 4 out \<and> data3 out ! 0 ! 0 ! 1 = 1219"
proof -
  let ?x = "\<lparr>shape3 = (1, 2, 4), data3 = [[[1, 2, 3, 4], [5, 6, 7, 8]]]\<rparr>"
  let ?w = "\<lparr>shape2 = (2, 3), data2 = [[1, 10, 100], [2, 3, 4]]\<rparr>"
  let ?b = "\<lparr>shape1 = 2, data1 = [1000, 1 / 2]\<rparr>"
  let ?h = "\<lparr>shape3 = (1, 2, 2), data3 = [[[7, 9], [1, 1]]]\<rparr>"
  have "has_shape3 1 2 4 ?x" "has_shape2 2 3 ?w" "pred_option (has_shape1 2) (Some ?b)"
    "pred_option (has_shape3 1 2 2) (Some ?h)" "activation_ok None"
    by (simp_all add: has_shape3_def has_shape2_def has_shape1_def wf3_def wf2_def wf1_def
        activation_ok_def)
  from causal_conv1d_ref_formula[OF this, of] obtain out where
    out: "causal_conv1d_ref ?x ?w (Some ?b) (Some ?h) None = Inr out" "has_shape3 1 2 4 out"
      "\<forall>b<1. \<forall>d<2. \<forall>t<4. data3 out ! b ! d ! t =
        activate None ((\<Sum>k<3. data2 ?w ! d ! k * src ?x (Some ?h) b d (int t - (int 3 - 1) + int k))
                      + bias_term (Some ?b) d)"
    by auto
  from out(3) have "data3 out ! 0 ! 0 ! 1 =
        activate None ((\<Sum>k<3. data2 ?w ! 0 ! k * src ?x (Some ?h) 0 0 (int 1 - (int 3 - 1) + int k))
                      + bias_term (Some ?b) 0)"
    by simp
  also have "\<dots> = 1219"
    by (simp add: activate_def bias_term_def src_def src_row_def hid_row_def
        numeral_3_eq_3 lessThan_Suc)
  finally show ?thesis using out(1,2) by blast
qed

section \<open>Fused and separate activation agree\<close>



section \<open>An unsupported activation is rejected first\<close>

text \<open>
  Claim C8. Each of the four entry points \<^verbatim>\<open>CausalConv1dFn.forward\<close>,
  \<^verbatim>\<open>causal_conv1d_ref\<close>, \<^verbatim>\<open>causal_conv1d_update\<close> and \<^verbatim>\<open>causal_conv1d_update_ref\<close>,
  called with an activation other than \<^verbatim>\<open>None\<close>, \<^verbatim>\<open>"silu"\<close> and \<^verbatim>\<open>"swish"\<close>, raises
  NotImplementedError whatever its other arguments are, without calling the extension and
  leaving the autograd context and the state buffer as they were. Called with one of the
  three, none of them raises that error (an exception of the extension is not the
  wrapper's).
\<close>

theorem unsupported_activation_rejected:
  "(\<not> activation_ok act \<longrightarrow>
      CausalConv1dFn_forward causal_conv1d_fwd ctx (sx :: 'a strided) sweight sbias shidden seq_idx act
        = (Inl (Raised NotImplementedError), ctx)
      \<and> causal_conv1d_ref x weight bias hidden act = Inl NotImplementedError
      \<and> causal_conv1d_update cuda_update cx cstate cweight cbias act
        = (Inl (Raised NotImplementedError), cstate)
      \<and> causal_conv1d_update_ref xt conv_state weight bias act
        = (Inl NotImplementedError, conv_state))
   \<and> (activation_ok act \<longrightarrow>
      fst (CausalConv1dFn_forward causal_conv1d_fwd ctx sx sweight sbias shidden seq_idx act)
        \<noteq> Inl (Raised NotImplementedError)
      \<and> causal_conv1d_ref x weight bias hidden act \<noteq> Inl NotImplementedError
      \<and> fst (causal_conv1d_update cuda_update cx cstate cweight cbias act)
        \<noteq> Inl (Raised NotImplementedError)
      \<and> fst (causal_conv1d_update_ref xt conv_state weight bias act) \<noteq> Inl NotImplementedError)"
proof (cases "activation_ok act")
  case False
  then show ?thesis
    by (simp add: CausalConv1dFn_forward_def causal_conv1d_ref_def causal_conv1d_update_def
        causal_conv1d_update_ref_def)
next
  case True
  have stride_err: "stride t i \<noteq> Inl NotImplementedError" for t :: "'a strided" and i
    by (simp add: stride_def)
  have nus: "neither_unit_stride t \<noteq> Inl NotImplementedError" for t :: "'a strided"
    using stride_err[of t 2] stride_err[of t 1]
    by (auto simp: neither_unit_stride_def split: sum.splits if_splits)
  have 1: "fst (CausalConv1dFn_forward causal_conv1d_fwd ctx sx sweight sbias shidden seq_idx act)
        \<noteq> Inl (Raised NotImplementedError)"
    using True nus[of sx]
    by (auto simp: CausalConv1dFn_forward_def Let_def split: sum.splits)
  have cat: "cat_last h x \<noteq> Inl NotImplementedError" for h
    by (simp add: cat_last_def split: prod.splits)
  have conv: "conv1d_depthwise xc weight bias p \<noteq> Inl NotImplementedError" for xc p
    by (simp add: conv1d_depthwise_def split: prod.splits)
  have 2: "causal_conv1d_ref x weight bias hidden act \<noteq> Inl NotImplementedError"
    using True cat conv
    by (auto simp: causal_conv1d_ref_def Let_def split: sum.splits option.splits prod.splits)
  have 3: "fst (causal_conv1d_update cuda_update cx cstate cweight cbias act)
        \<noteq> Inl (Raised NotImplementedError)"
    using True by (auto simp: causal_conv1d_update_def split: sum.splits prod.splits)
  have 4: "fst (causal_conv1d_update_ref xt conv_state weight bias act) \<noteq> Inl NotImplementedError"
    using True
    by (simp add: causal_conv1d_update_ref_def Let_def split: option.splits prod.splits)
  from True 1 2 3 4 show ?thesis by simp
qed

theorem unsupported_activation_rejected_witness:
  "\<not> activation_ok (Some ''relu'')
   \<and> CausalConv1dFn_forward (\<lambda>x w b h s a. (Inr x :: unit + unit strided))
        \<lparr>saved_tensors = [], activation = None\<rparr>
        \<lparr>sizes = [1, 1, 2], strides = [2, 2, 1], contents = ()\<rparr>
        \<lparr>sizes = [1, 2], strides = [2, 1], contents = ()\<rparr> None None None (Some ''relu'')
      = (Inl (Raised NotImplementedError), \<lparr>saved_tensors = [], activation = None\<rparr>)
   \<and> causal_conv1d_ref \<lparr>shape3 = (1, 1, 2), data3 = [[[1, 2]]]\<rparr>
        \<lparr>shape2 = (1, 2), data2 = [[3, 5]]\<rparr> None None (Some ''relu'') = Inl NotImplementedError
   \<and> causal_conv1d_update (\<lambda>x s w b a. ((Inr x :: unit + nat), Suc s)) (7 :: nat) (0 :: nat)
        () (None :: unit option) (Some ''relu'') = (Inl (Raised NotImplementedError), 0)
   \<and> causal_conv1d_update_ref \<lparr>shape2 = (1, 1), data2 = [[4]]\<rparr>
        \<lparr>shape3 = (1, 1, 2), data3 = [[[1, 2]]]\<rparr> \<lparr>shape2 = (1, 2), data2 = [[3, 5]]\<rparr>
        None (Some ''relu'')
      = (Inl NotImplementedError, \<lparr>shape3 = (1, 1, 2), data3 = [[[1, 2]]]\<rparr>)
   \<and> activation_ok (Some ''swish'')
   \<and> causal_conv1d_ref \<lparr>shape3 = (1, 1, 2), data3 = [[[1, 2]]]\<rparr>
        \<lparr>shape2 = (1, 2), data2 = [[3, 5]]\<rparr> None None (Some ''swish'') \<noteq> Inl NotImplementedError
   \<and> fst (causal_conv1d_update_ref \<lparr>shape2 = (1, 1), data2 = [[4]]\<rparr>
        \<lparr>shape3 = (1, 1, 2), data3 = [[[1, 2]]]\<rparr> \<lparr>shape2 = (1, 2), data2 = [[3, 5]]\<rparr>
        None (Some ''swish'')) \<noteq> Inl NotImplementedError"
proof -
  have bad: "\<not> activation_ok (Some ''relu'')" and good: "activation_ok (Some ''swish'')"
    by (simp_all add: activation_ok_def)
  from bad good
    unsupported_activation_rejected[where act = "Some ''relu''"
      and causal_conv1d_fwd = "\<lambda>x w b h s a. (Inr x :: unit + unit strided)"
      and ctx = "\<lparr>saved_tensors = [], activation = None\<rparr>"
      and sx = "\<lparr>sizes = [1, 1, 2], strides = [2, 2, 1], contents = ()\<rparr>"
      and sweight = "\<lparr>sizes = [1, 2], strides = [2, 1], contents = ()\<rparr>"
      and sbias = None and shidden = None and seq_idx = None
      and x = "\<lparr>shape3 = (1, 1, 2), data3 = [[[1, 2]]]\<rparr>"
      and weight = "\<lparr>shape2 = (1, 2), data2 = [[3, 5]]\<rparr>" and bias = None and hidden = None
      and cuda_update = "\<lambda>x s w b a. ((Inr x :: unit + nat), Suc s)"
      and cx = "7 :: nat" and cstate = "0 :: nat" and cweight = "()" and cbias = "None :: unit option"
      and xt = "\<lparr>shape2 = (1, 1), data2 = [[4]]\<rparr>"
      and conv_state = "\<lparr>shape3 = (1, 1, 2), data3 = [[[1, 2]]]\<rparr>"]
    unsupported_activation_rejected[where act = "Some ''swish''"
      and causal_conv1d_fwd = "\<lambda>x w b h s a. (Inr x :: unit + unit strided)"
      and ctx = "\<lparr>saved_tensors = [], activation = None\<rparr>"
      and sx = "\<lparr>sizes = [1, 1, 2], strides = [2, 2, 1], contents = ()\<rparr>"
      and sweight = "\<lparr>sizes = [1, 2], strides = [2, 1], contents = ()\<rparr>"
      and sbias = None and shidden = None and seq_idx = None
      and x = "\<lparr>shape3 = (1, 1, 2), data3 = [[[1, 2]]]\<rparr>"
      and weight = "\<lparr>shape2 = (1, 2), data2 = [[3, 5]]\<rparr>" and bias = None and hidden = None
      and cuda_update = "\<lambda>x s w b a. ((Inr x :: unit + nat), Suc s)"
      and cx = "7 :: nat" and cstate = "0 :: nat" and cweight = "()" and cbias = "None :: unit option"
      and xt = "\<lparr>shape2 = (1, 1), data2 = [[4]]\<rparr>"
      and conv_state = "\<lparr>shape3 = (1, 1, 2), data3 = [[[1, 2]]]\<rparr>"]
  show ?thesis by simp
qed

section \<open>Closed form of one update step\<close>

lemma rotate1_update_last:
  "length r = W \<Longrightarrow> 0 < W \<Longrightarrow> (rotate1 r)[W - 1 := v] = tl r @ [v]"
  by (cases r) auto

lemma sum_list_map2_mult:
  fixes r w :: "real list"
  assumes "length r = W" "length w = W"
  shows "sum_list (map2 (*) r w) = (\<Sum>k<W. r ! k * w ! k)"
proof -
  have "map2 (*) r w = map (\<lambda>k. r ! k * w ! k) [0..<W]"
    using assms by (intro nth_equalityI) simp_all
  then show ?thesis by (simp add: sum_list_upt_eq_sum)
qed

lemma bias_at_shape: "shape1 bs = D \<Longrightarrow> d < D \<Longrightarrow> bias_at bs d = data1 bs ! d"
  by (auto simp: bias_at_def)

lemma update_state_rows:
  assumes x: "has_shape2 B D x"
    and s: "has_shape3 B D W conv_state"
    and pos: "0 < W"
  shows "map2 (map2 (\<lambda>r v. r[W - 1 := v])) (map (map rotate1) (data3 conv_state)) (data2 x)
       = map (\<lambda>b. map (\<lambda>d. shifted conv_state x b d) [0..<D]) [0..<B]"
proof -
  from x have x': "wf2 x" "shape2 x = (B, D)" by (simp_all add: has_shape2_def)
  from s have s': "wf3 conv_state" "shape3 conv_state = (B, D, W)" by (simp_all add: has_shape3_def)
  note lx = wf2_lengths[OF x'] and ls = wf3_lengths[OF s']
  show ?thesis
  proof (rule nth_equalityI)
    show "length (map2 (map2 (\<lambda>r v. r[W - 1 := v])) (map (map rotate1) (data3 conv_state)) (data2 x))
        = length (map (\<lambda>b. map (\<lambda>d. shifted conv_state x b d) [0..<D]) [0..<B])"
      by (simp add: lx(1) ls(1))
  next
    fix b
    assume "b < length (map2 (map2 (\<lambda>r v. r[W - 1 := v])) (map (map rotate1) (data3 conv_state)) (data2 x))"
    then have b: "b < B" by (simp add: lx(1) ls(1))
    have "map2 (\<lambda>r v. r[W - 1 := v]) (map rotate1 (data3 conv_state ! b)) (data2 x ! b)
        = map (\<lambda>d. shifted conv_state x b d) [0..<D]"
    proof (rule nth_equalityI)
      show "length (map2 (\<lambda>r v. r[W - 1 := v]) (map rotate1 (data3 conv_state ! b)) (data2 x ! b))
          = length (map (\<lambda>d. shifted conv_state x b d) [0..<D])"
        by (simp add: lx(2)[OF b] ls(2)[OF b])
    next
      fix d
      assume "d < length (map2 (\<lambda>r v. r[W - 1 := v]) (map rotate1 (data3 conv_state ! b)) (data2 x ! b))"
      then have d: "d < D" by (simp add: lx(2)[OF b] ls(2)[OF b])
      show "map2 (\<lambda>r v. r[W - 1 := v]) (map rotate1 (data3 conv_state ! b)) (data2 x ! b) ! d
          = map (\<lambda>d. shifted conv_state x b d) [0..<D] ! d"
        using d rotate1_update_last[OF ls(3)[OF b d] pos]
        by (simp add: lx(2)[OF b] ls(2)[OF b] shifted_def)
    qed
    then show "map2 (map2 (\<lambda>r v. r[W - 1 := v])) (map (map rotate1) (data3 conv_state)) (data2 x) ! b
        = map (\<lambda>b. map (\<lambda>d. shifted conv_state x b d) [0..<D]) [0..<B] ! b"
      using b by (simp add: lx(1) ls(1))
  qed
qed

lemma length_shifted:
  assumes "has_shape3 B D W conv_state" "0 < W" "b < B" "d < D"
  shows "length (shifted conv_state x b d) = W"
  using assms wf3_lengths(3)[of conv_state B D W b d]
  by (simp add: shifted_def has_shape3_def)

lemma update_out_rows:
  assumes s: "has_shape3 B D W conv_state"
    and w: "has_shape2 D W weight"
    and pos: "0 < W"
  shows "map (\<lambda>p. map2 (\<lambda>r w. sum_list (map2 (*) r w)) p (data2 weight))
           (map (\<lambda>b. map (\<lambda>d. shifted conv_state x b d) [0..<D]) [0..<B])
       = map (\<lambda>b. map (\<lambda>d. \<Sum>k<W. shifted conv_state x b d ! k * data2 weight ! d ! k) [0..<D]) [0..<B]"
proof -
  from w have w': "wf2 weight" "shape2 weight = (D, W)" by (simp_all add: has_shape2_def)
  note lw = wf2_lengths[OF w']
  have "map2 (\<lambda>r w. sum_list (map2 (*) r w)) (map (\<lambda>d. shifted conv_state x b d) [0..<D]) (data2 weight)
      = map (\<lambda>d. \<Sum>k<W. shifted conv_state x b d ! k * data2 weight ! d ! k) [0..<D]"
    if b: "b < B" for b
  proof (rule nth_equalityI)
    show "length (map2 (\<lambda>r w. sum_list (map2 (*) r w)) (map (\<lambda>d. shifted conv_state x b d) [0..<D]) (data2 weight))
      = length (map (\<lambda>d. \<Sum>k<W. shifted conv_state x b d ! k * data2 weight ! d ! k) [0..<D])"
      by (simp add: lw(1))
  next
    fix d
    assume "d < length (map2 (\<lambda>r w. sum_list (map2 (*) r w)) (map (\<lambda>d. shifted conv_state x b d) [0..<D]) (data2 weight))"
    then have d: "d < D" by (simp add: lw(1))
    show "map2 (\<lambda>r w. sum_list (map2 (*) r w)) (map (\<lambda>d. shifted conv_state x b d) [0..<D]) (data2 weight) ! d
      = map (\<lambda>d. \<Sum>k<W. shifted conv_state x b d ! k * data2 weight ! d ! k) [0..<D] ! d"
      using d sum_list_map2_mult[OF length_shifted[OF s pos b d] lw(2)[OF d]]
      by (simp add: lw(1))
  qed
  then show ?thesis by simp
qed

lemma update_ref_closed:
  assumes x: "has_shape2 B D x"
    and s: "has_shape3 B D W conv_state"
    and w: "has_shape2 D W weight"
    and bias: "pred_option (has_shape1 D) bias"
    and act: "activation_ok act"
    and pos: "0 < W"
  shows "causal_conv1d_update_ref x conv_state weight bias act =
    (Inr \<lparr>shape2 = (B, D),
          data2 = map (\<lambda>b. map (\<lambda>d. activate act
                     ((\<Sum>k<W. shifted conv_state x b d ! k * data2 weight ! d ! k) + bias_term bias d))
                   [0..<D]) [0..<B]\<rparr>,
     \<lparr>shape3 = (B, D, W),
      data3 = map (\<lambda>b. map (\<lambda>d. shifted conv_state x b d) [0..<D]) [0..<B]\<rparr>)"
proof -
  from x have x': "shape2 x = (B, D)" by (simp add: has_shape2_def)
  from s have s': "shape3 conv_state = (B, D, W)" by (simp add: has_shape3_def)
  from w have w': "shape2 weight = (D, W)" by (simp add: has_shape2_def)
  define NEW where "NEW = map (\<lambda>b. map (\<lambda>d. shifted conv_state x b d) [0..<D]) [0..<B]"
  define dot where "dot = (\<lambda>b d. \<Sum>k<W. shifted conv_state x b d ! k * data2 weight ! d ! k)"
  define OUT where "OUT = map (\<lambda>b. map (\<lambda>d. dot b d) [0..<D]) [0..<B]"
  have st: "conv_state\<lparr>data3 := map (map rotate1) (data3 conv_state)\<rparr>
      \<lparr>data3 := map2 (map2 (\<lambda>r v. r[W - 1 := v]))
         (data3 (conv_state\<lparr>data3 := map (map rotate1) (data3 conv_state)\<rparr>)) (data2 x)\<rparr>
      = \<lparr>shape3 = (B, D, W), data3 = NEW\<rparr>"
    using update_state_rows[OF x s pos] s' unfolding NEW_def by simp
  have out: "map (\<lambda>p. map2 (\<lambda>r w. sum_list (map2 (*) r w)) p (data2 weight)) NEW = OUT"
    unfolding NEW_def OUT_def dot_def by (rule update_out_rows[OF s w pos])
  have actf: "(if act = None then t else map_tensor2 silu t) = map_tensor2 (activate act) t" for t
    using act by (cases act) (simp_all add: activate_ok map_tensor2_def)
  have biasrows: "map (\<lambda>r. map2 (\<lambda>v d. v + bias_at bs d) r [0..<D]) OUT
      = map (\<lambda>b. map (\<lambda>d. dot b d + data1 bs ! d) [0..<D]) [0..<B]" if bs: "shape1 bs = D" for bs
  proof -
    have "map2 (\<lambda>v d. v + bias_at bs d) (map f [0..<D]) [0..<D]
        = map (\<lambda>d. f d + data1 bs ! d) [0..<D]" for f
      by (rule nth_equalityI) (simp_all add: bias_at_shape[OF bs])
    then show ?thesis unfolding OUT_def by simp
  qed
  have step: "causal_conv1d_update_ref x conv_state weight bias act =
      (Inr (map_tensor2 (activate act)
         \<lparr>shape2 = (B, D), data2 = map (\<lambda>b. map (\<lambda>d. dot b d + bias_term bias d) [0..<D]) [0..<B]\<rparr>),
       \<lparr>shape3 = (B, D, W), data3 = NEW\<rparr>)"
  proof (cases bias)
    case None
    have "map (\<lambda>b. map (\<lambda>d. dot b d + bias_term None d) [0..<D]) [0..<B] = OUT"
      unfolding OUT_def by (simp add: bias_term_def)
    with None pos act show ?thesis
      unfolding causal_conv1d_update_ref_def Let_def w' snd_conv st actf
      by (simp add: x' s' w' out)
  next
    case (Some bs)
    with bias have bs: "shape1 bs = D" by (simp add: has_shape1_def)
    have "map (\<lambda>b. map (\<lambda>d. dot b d + bias_term (Some bs) d) [0..<D]) [0..<B]
        = map (\<lambda>r. map2 (\<lambda>v d. v + bias_at bs d) r [0..<D]) OUT"
      unfolding biasrows[OF bs] by (simp add: bias_term_def)
    with Some bs pos act show ?thesis
      unfolding causal_conv1d_update_ref_def Let_def w' snd_conv st actf
      by (simp add: x' s' w' out)
  qed
  show ?thesis
    unfolding step NEW_def dot_def by (simp add: map_tensor2_def comp_def)
qed

section \<open>One step of the reference update\<close>

text \<open>
  Claim C5. For a time step of shape \<open>(B, D)\<close>, a state buffer of shape \<open>(B, D, W)\<close> and a
  weight of shape \<open>(D, W)\<close>, one call of \<^verbatim>\<open>causal_conv1d_update_ref\<close> leaves in the state
  buffer every old window without its slot 0, followed by the new sample, and returns
  \<open>out[b, d]\<close>, the sum over \<open>k\<close> of \<open>new_state[b, d, k] * weight[d, k]\<close>, plus \<open>bias[d]\<close>
  when there is a bias, passed through silu when the activation is enabled. The window
  has at least one slot: the write into the last slot raises on an empty window axis.
\<close>

theorem causal_conv1d_update_ref_step:
  assumes "has_shape2 B D x"
    and "has_shape3 B D W conv_state"
    and "has_shape2 D W weight"
    and "pred_option (has_shape1 D) bias"
    and "activation_ok act"
    and "0 < W"
  shows "\<exists>out state'. causal_conv1d_update_ref x conv_state weight bias act = (Inr out, state')
     \<and> has_shape3 B D W state' \<and> has_shape2 B D out
     \<and> (\<forall>b<B. \<forall>d<D.
          data3 state' ! b ! d = tl (data3 conv_state ! b ! d) @ [data2 x ! b ! d]
          \<and> data2 out ! b ! d =
              activate act ((\<Sum>k<W. data3 state' ! b ! d ! k * data2 weight ! d ! k)
                            + bias_term bias d))"
proof -
  let ?out = "\<lparr>shape2 = (B, D),
          data2 = map (\<lambda>b. map (\<lambda>d. activate act
                     ((\<Sum>k<W. shifted conv_state x b d ! k * data2 weight ! d ! k) + bias_term bias d))
                   [0..<D]) [0..<B]\<rparr>"
  let ?st = "\<lparr>shape3 = (B, D, W),
      data3 = map (\<lambda>b. map (\<lambda>d. shifted conv_state x b d) [0..<D]) [0..<B]\<rparr>"
  have eq: "causal_conv1d_update_ref x conv_state weight bias act = (Inr ?out, ?st)"
    using assms by (rule update_ref_closed)
  have len: "length (shifted conv_state x b d) = W" if "b < B" "d < D" for b d
    using length_shifted[OF assms(2,6) that] .
  have st: "has_shape3 B D W ?st"
    using len by (simp add: has_shape3_def wf3_def list_all_iff)
  have out: "has_shape2 B D ?out"
    by (simp add: has_shape2_def wf2_def list_all_iff)
  have rows: "data3 ?st ! b ! d = tl (data3 conv_state ! b ! d) @ [data2 x ! b ! d]
      \<and> data2 ?out ! b ! d =
          activate act ((\<Sum>k<W. data3 ?st ! b ! d ! k * data2 weight ! d ! k) + bias_term bias d)"
    if "b < B" "d < D" for b d
    using that by (simp add: shifted_def)
  from eq st out rows show ?thesis by blast
qed

theorem causal_conv1d_update_ref_step_witness:
  "causal_conv1d_update_ref \<lparr>shape2 = (1, 2), data2 = [[3, 4]]\<rparr>
      \<lparr>shape3 = (1, 2, 3), data3 = [[[0, 1, 2], [5, 6, 7]]]\<rparr>
      \<lparr>shape2 = (2, 3), data2 = [[1, 10, 100], [2, 3, 4]]\<rparr>
      (Some \<lparr>shape1 = 2, data1 = [1000, 1 / 2]\<rparr>) None
    = (Inr \<lparr>shape2 = (1, 2), data2 = [[1321, 99 / 2]]\<rparr>,
       \<lparr>shape3 = (1, 2, 3), data3 = [[[1, 2, 3], [6, 7, 4]]]\<rparr>)"
proof -
  let ?x = "\<lparr>shape2 = (1, 2), data2 = [[3, 4]]\<rparr>"
  let ?s = "\<lparr>shape3 = (1, 2, 3), data3 = [[[0, 1, 2], [5, 6, 7]]]\<rparr>"
  let ?w = "\<lparr>shape2 = (2, 3), data2 = [[1, 10, 100], [2, 3, 4]]\<rparr>"
  let ?b = "\<lparr>shape1 = 2, data1 = [1000, 1 / 2]\<rparr>"
  have "has_shape2 1 2 ?x" "has_shape3 1 2 3 ?s" "has_shape2 2 3 ?w"
    "pred_option (has_shape1 2) (Some ?b)" "activation_ok None" "0 < (3 :: nat)"
    by (simp_all add: has_shape3_def has_shape2_def has_shape1_def wf3_def wf2_def wf1_def
        activation_ok_def)
  from causal_conv1d_update_ref_step[OF this] obtain out state' where
    r: "causal_conv1d_update_ref ?x ?s ?w (Some ?b) None = (Inr out, state')"
      "has_shape3 1 2 3 state'" "has_shape2 1 2 out"
      "\<forall>b<1. \<forall>d<2.
          data3 state' ! b ! d = tl (data3 ?s ! b ! d) @ [data2 ?x ! b ! d]
          \<and> data2 out ! b ! d =
              activate None ((\<Sum>k<3. data3 state' ! b ! d ! k * data2 ?w ! d ! k)
                            + bias_term (Some ?b) d)"
    by blast
  have d2: "d < 2 \<longleftrightarrow> d = 0 \<or> d = 1" for d :: nat by auto
  from r(4) have s0: "data3 state' ! 0 ! 0 = [1, 2, 3]" and s1: "data3 state' ! 0 ! 1 = [6, 7, 4]"
    by (simp_all add: d2)
  from r(4) have o0: "data2 out ! 0 ! 0 = 1321" and o1: "data2 out ! 0 ! 1 = 99 / 2"
    by (simp_all add: d2 s0 s1 activate_def bias_term_def numeral_3_eq_3 lessThan_Suc)
  have "data3 state' = [[[1, 2, 3], [6, 7, 4]]]"
    using r(2) s0 s1
    by (auto simp: has_shape3_def wf3_def list_all_iff length_Suc_conv numeral_2_eq_2)
  moreover have "data2 out = [[1321, 99 / 2]]"
    using r(3) o0 o1
    by (auto simp: has_shape2_def wf2_def list_all_iff length_Suc_conv numeral_2_eq_2)
  moreover have "shape3 state' = (1, 2, 3)" "shape2 out = (1, 2)"
    using r(2,3) by (simp_all add: has_shape3_def has_shape2_def)
  ultimately have "state' = \<lparr>shape3 = (1, 2, 3), data3 = [[[1, 2, 3], [6, 7, 4]]]\<rparr>"
    "out = \<lparr>shape2 = (1, 2), data2 = [[1321, 99 / 2]]\<rparr>"
    by simp_all
  with r(1) show ?thesis by simp
qed

section \<open>The state buffer while streaming\<close>

lemma window_at_nth:
  "k < W \<Longrightarrow> window_at xs W t ! k = src_row [] xs (int t - int W + int k)"
  by (simp add: window_at_def)

lemma window_at_0: "window_at xs W 0 = replicate W 0"
proof -
  have "src_row [] xs (int 0 - int W + int k) = 0" if "k < W" for k
    using that by (simp add: src_row_def)
  then have "window_at xs W 0 = map (\<lambda>k. 0) [0..<W]"
    unfolding window_at_def by (intro map_cong refl) simp
  then show ?thesis by (simp add: map_replicate_trivial)
qed

lemma state_at_0: "state_at B D W x 0 = zeros3 B D W"
  by (simp add: state_at_def zeros3_def window_at_0 map_replicate_trivial)

lemma has_shape3_state_at: "has_shape3 B D W (state_at B D W x t)"
  by (simp add: state_at_def has_shape3_def wf3_def list_all_iff window_at_def)

lemma has_shape2_timestep: "has_shape3 B D L x \<Longrightarrow> has_shape2 B D (timestep x t)"
  by (auto simp: timestep_def has_shape3_def has_shape2_def wf3_def wf2_def list_all_iff)

lemma timestep_nth:
  assumes "has_shape3 B D L x" "b < B" "d < D"
  shows "data2 (timestep x t) ! b ! d = data3 x ! b ! d ! t"
proof -
  from assms have "length (data3 x) = B" "length (data3 x ! b) = D"
    by (simp_all add: has_shape3_def wf3_lengths)
  with assms show ?thesis by (simp add: timestep_def has_shape3_def)
qed

lemma window_at_Suc:
  assumes "0 < W"
  shows "tl (window_at xs W t) @ [xs ! t] = window_at xs W (Suc t)"
proof (rule nth_equalityI)
  show "length (tl (window_at xs W t) @ [xs ! t]) = length (window_at xs W (Suc t))"
    using assms by (simp add: window_at_def)
next
  fix k
  assume "k < length (tl (window_at xs W t) @ [xs ! t])"
  then have k: "k < W" using assms by (simp add: window_at_def)
  show "(tl (window_at xs W t) @ [xs ! t]) ! k = window_at xs W (Suc t) ! k"
  proof (cases "k < W - 1")
    case True
    then have "(tl (window_at xs W t) @ [xs ! t]) ! k = window_at xs W t ! Suc k"
      by (simp add: nth_append nth_tl window_at_def)
    also have "\<dots> = src_row [] xs (int t - int W + int (Suc k))"
      using True by (intro window_at_nth) simp
    also have "int t - int W + int (Suc k) = int (Suc t) - int W + int k" by simp
    finally show ?thesis by (simp only: window_at_nth[OF k])
  next
    case False
    with k have kW: "k = W - 1" by simp
    then have "(tl (window_at xs W t) @ [xs ! t]) ! k = xs ! t"
      by (simp add: nth_append window_at_def)
    moreover have "int (Suc t) - int W + int k = int t" using kW assms by simp
    then have "window_at xs W (Suc t) ! k = xs ! t"
      by (simp only: window_at_nth[OF k]) (simp add: src_row_def)
    ultimately show ?thesis by simp
  qed
qed

lemma shifted_state_at:
  assumes "has_shape3 B D L x" "0 < W" "b < B" "d < D"
  shows "shifted (state_at B D W x t) (timestep x t) b d = window_at (data3 x ! b ! d) W (Suc t)"
  using assms window_at_Suc[OF assms(2), of "data3 x ! b ! d" t] timestep_nth[OF assms(1,3,4)]
  by (simp add: shifted_def state_at_def)

lemma window_dot:
  assumes "length w = W"
  shows "(\<Sum>k<W. window_at xs W (Suc t) ! k * w ! k) = causal_sum w [] xs t"
proof -
  have "window_at xs W (Suc t) ! k * w ! k
      = w ! k * src_row [] xs (int t - (int (length w) - 1) + int k)" if "k < W" for k
  proof -
    have "int (Suc t) - int W + int k = int t - (int (length w) - 1) + int k"
      using assms by simp
    then show ?thesis by (simp only: window_at_nth[OF that] mult.commute)
  qed
  then show ?thesis
    unfolding causal_sum_def assms by (intro sum.cong refl) simp
qed

lemma update_ref_stream_step:
  assumes x: "has_shape3 B D L x"
    and w: "has_shape2 D W weight"
    and bias: "pred_option (has_shape1 D) bias"
    and act: "activation_ok act"
    and pos: "0 < W"
  shows "causal_conv1d_update_ref (timestep x t) (state_at B D W x t) weight bias act =
    (Inr \<lparr>shape2 = (B, D),
          data2 = map (\<lambda>b. map (\<lambda>d. causal_out x weight bias None act b d t) [0..<D]) [0..<B]\<rparr>,
     state_at B D W x (Suc t))"
proof -
  from w have w': "wf2 weight" "shape2 weight = (D, W)" by (simp_all add: has_shape2_def)
  have row: "activate act ((\<Sum>k<W. shifted (state_at B D W x t) (timestep x t) b d ! k
                 * data2 weight ! d ! k) + bias_term bias d)
      = causal_out x weight bias None act b d t" if "b < B" "d < D" for b d
    using window_dot[OF wf2_lengths(2)[OF w' that(2)], of "data3 x ! b ! d" t]
    by (simp add: shifted_state_at[OF x pos that] causal_out_def hid_row_def)
  have "causal_conv1d_update_ref (timestep x t) (state_at B D W x t) weight bias act =
    (Inr \<lparr>shape2 = (B, D),
          data2 = map (\<lambda>b. map (\<lambda>d. activate act
                     ((\<Sum>k<W. shifted (state_at B D W x t) (timestep x t) b d ! k
                          * data2 weight ! d ! k) + bias_term bias d))
                   [0..<D]) [0..<B]\<rparr>,
     \<lparr>shape3 = (B, D, W),
      data3 = map (\<lambda>b. map (\<lambda>d. shifted (state_at B D W x t) (timestep x t) b d) [0..<D]) [0..<B]\<rparr>)"
    by (rule update_ref_closed[OF has_shape2_timestep[OF x] has_shape3_state_at w bias act pos])
  also have "\<dots> = (Inr \<lparr>shape2 = (B, D),
          data2 = map (\<lambda>b. map (\<lambda>d. causal_out x weight bias None act b d t) [0..<D]) [0..<B]\<rparr>,
     state_at B D W x (Suc t))"
    using row shifted_state_at[OF x pos] by (simp add: state_at_def)
  finally show ?thesis .
qed

lemma stream_from:
  assumes x: "has_shape3 B D L x"
    and w: "has_shape2 D W weight"
    and bias: "pred_option (has_shape1 D) bias"
    and act: "activation_ok act"
    and pos: "0 < W"
  shows "stream_update_ref (map (timestep x) [t..<t + n]) (state_at B D W x t) weight bias act =
    (Inr (map (\<lambda>t. \<lparr>shape2 = (B, D),
          data2 = map (\<lambda>b. map (\<lambda>d. causal_out x weight bias None act b d t) [0..<D]) [0..<B]\<rparr>)
        [t..<t + n]),
     state_at B D W x (t + n))"
proof (induction n arbitrary: t)
  case 0
  then show ?case by simp
next
  case (Suc n)
  have "[t..<t + Suc n] = t # [Suc t..<Suc t + n]" by (simp add: upt_conv_Cons)
  then show ?case
    using Suc.IH[of "Suc t"] update_ref_stream_step[OF x w bias act pos, of t]
    by simp
qed

section \<open>Streaming through the update reproduces the forward\<close>

text \<open>
  Claim C3. For a signal of shape \<open>(B, D, L)\<close>, feeding its time steps
  \<^verbatim>\<open>x[:, :, 0]\<close>, ..., \<^verbatim>\<open>x[:, :, L - 1]\<close> one at a time through
  \<^verbatim>\<open>causal_conv1d_update_ref\<close>, from a state buffer of shape \<open>(B, D, W)\<close> that is all
  zero, never raises, and call \<open>t\<close> returns exactly position \<open>t\<close> of what
  \<^verbatim>\<open>causal_conv1d_ref\<close> returns for the whole signal without initial state, for every
  bias and every supported activation.
\<close>

theorem streaming_equivalence:
  assumes "has_shape3 B D L x"
    and "has_shape2 D W weight"
    and "pred_option (has_shape1 D) bias"
    and "activation_ok act"
    and "0 < D" "0 < W" "0 < L"
  shows "\<exists>out state'. causal_conv1d_ref x weight bias None act = Inr out
     \<and> stream_update_ref (map (timestep x) [0..<L]) (zeros3 B D W) weight bias act
         = (Inr (map (timestep out) [0..<L]), state')"
proof -
  let ?out = "\<lparr>shape3 = (B, D, L),
          data3 = map (\<lambda>b. map (\<lambda>d. map (causal_out x weight bias None act b d) [0..<L])
                               [0..<D]) [0..<B]\<rparr>"
  have none: "pred_option (has_shape3 B D 0) None" by simp
  have fwd: "causal_conv1d_ref x weight bias None act = Inr ?out"
    by (rule causal_conv1d_ref_closed[OF assms(1,2,3) none assms(4,5,6,7)])
  have step: "timestep ?out t = \<lparr>shape2 = (B, D),
          data2 = map (\<lambda>b. map (\<lambda>d. causal_out x weight bias None act b d t) [0..<D]) [0..<B]\<rparr>"
    if "t < L" for t
    using that by (simp add: timestep_def)
  have "map (timestep ?out) [0..<L] = map (\<lambda>t. \<lparr>shape2 = (B, D),
          data2 = map (\<lambda>b. map (\<lambda>d. causal_out x weight bias None act b d t) [0..<D]) [0..<B]\<rparr>)
        [0..<L]"
    by (rule map_cong[OF refl]) (simp add: step)
  with stream_from[OF assms(1,2,3,4,6), of 0 L]
  have "stream_update_ref (map (timestep x) [0..<L]) (zeros3 B D W) weight bias act
         = (Inr (map (timestep ?out) [0..<L]), state_at B D W x L)"
    by (simp add: state_at_0)
  with fwd show ?thesis by blast
qed

theorem streaming_equivalence_witness:
  "\<exists>state'. stream_update_ref
      (map (timestep \<lparr>shape3 = (1, 2, 4), data3 = [[[1, 2, 3, 4], [5, 6, 7, 8]]]\<rparr>) [0..<4])
      (zeros3 1 2 3) \<lparr>shape2 = (2, 3), data2 = [[1, 10, 100], [2, 3, 4]]\<rparr>
      (Some \<lparr>shape1 = 2, data1 = [1000, 1 / 2]\<rparr>) None
    = (Inr [\<lparr>shape2 = (1, 2), data2 = [[1100, 41 / 2]]\<rparr>,
            \<lparr>shape2 = (1, 2), data2 = [[1210, 79 / 2]]\<rparr>,
            \<lparr>shape2 = (1, 2), data2 = [[1321, 113 / 2]]\<rparr>,
            \<lparr>shape2 = (1, 2), data2 = [[1432, 131 / 2]]\<rparr>], state')"
proof -
  let ?x = "\<lparr>shape3 = (1, 2, 4), data3 = [[[1, 2, 3, 4], [5, 6, 7, 8]]]\<rparr>"
  let ?w = "\<lparr>shape2 = (2, 3), data2 = [[1, 10, 100], [2, 3, 4]]\<rparr>"
  let ?b = "\<lparr>shape1 = 2, data1 = [1000, 1 / 2]\<rparr>"
  have "has_shape3 1 2 4 ?x" "has_shape2 2 3 ?w" "pred_option (has_shape1 2) (Some ?b)"
    "activation_ok None" "0 < (2 :: nat)" "0 < (3 :: nat)" "0 < (4 :: nat)"
    by (simp_all add: has_shape3_def has_shape2_def has_shape1_def wf3_def wf2_def wf1_def
        activation_ok_def)
  from streaming_equivalence[OF this] obtain out state' where
    r: "causal_conv1d_ref ?x ?w (Some ?b) None None = Inr out"
      "stream_update_ref (map (timestep ?x) [0..<4]) (zeros3 1 2 3) ?w (Some ?b) None
         = (Inr (map (timestep out) [0..<4]), state')"
    by blast
  have "causal_conv1d_ref ?x ?w (Some ?b) None None
      = Inr \<lparr>shape3 = (1, 2, 4),
             data3 = [[[1100, 1210, 1321, 1432], [41 / 2, 79 / 2, 113 / 2, 131 / 2]]]\<rparr>"
    by (simp add: causal_conv1d_ref_def activation_ok_def conv1d_depthwise_def conv1d_row_def
        slice_to_def Let_def upt_rec nth_append)
  with r(1) have "out = \<lparr>shape3 = (1, 2, 4),
             data3 = [[[1100, 1210, 1321, 1432], [41 / 2, 79 / 2, 113 / 2, 131 / 2]]]\<rparr>"
    by simp
  then have "map (timestep out) [0..<4]
      = [\<lparr>shape2 = (1, 2), data2 = [[1100, 41 / 2]]\<rparr>,
         \<lparr>shape2 = (1, 2), data2 = [[1210, 79 / 2]]\<rparr>,
         \<lparr>shape2 = (1, 2), data2 = [[1321, 113 / 2]]\<rparr>,
         \<lparr>shape2 = (1, 2), data2 = [[1432, 131 / 2]]\<rparr>]"
    by (simp add: timestep_def upt_rec)
  with r(2) show ?thesis by auto
qed

section \<open>Slices and agreeing prefixes\<close>

lemma has_shape3_slice_to:
  "has_shape3 B D L x \<Longrightarrow> has_shape3 B D (min p L) (slice_to p x)"
  by (auto simp: has_shape3_def wf3_def slice_to_def list_all_iff)

lemma has_shape3_slice_from:
  "has_shape3 B D L x \<Longrightarrow> has_shape3 B D (L - p) (slice_from p x)"
  by (auto simp: has_shape3_def wf3_def slice_from_def list_all_iff)

lemma slice_to_nth:
  assumes "has_shape3 B D L x" "b < B" "d < D"
  shows "data3 (slice_to p x) ! b ! d = take p (data3 x ! b ! d)"
proof -
  from assms have "length (data3 x) = B" "length (data3 x ! b) = D"
    by (simp_all add: has_shape3_def wf3_lengths)
  with assms show ?thesis by (simp add: slice_to_def has_shape3_def)
qed

lemma slice_from_nth:
  assumes "has_shape3 B D L x" "b < B" "d < D"
  shows "data3 (slice_from p x) ! b ! d = drop p (data3 x ! b ! d)"
proof -
  from assms have "length (data3 x) = B" "length (data3 x ! b) = D"
    by (simp_all add: has_shape3_def wf3_lengths)
  with assms show ?thesis by (simp add: slice_from_def has_shape3_def)
qed

lemma slice_to_closed:
  assumes "n \<le> L"
  shows "slice_to n \<lparr>shape3 = (B, D, L),
            data3 = map (\<lambda>b. map (\<lambda>d. map (f b d) [0..<L]) [0..<D]) [0..<B]\<rparr>
       = \<lparr>shape3 = (B, D, n),
            data3 = map (\<lambda>b. map (\<lambda>d. map (f b d) [0..<n]) [0..<D]) [0..<B]\<rparr>"
  using assms by (simp add: slice_to_def take_map comp_def min_def)

lemma src_row_agree:
  assumes "take (Suc t) xs = take (Suc t) xs'" "i \<le> int t"
  shows "src_row hs xs i = src_row hs xs' i"
proof (cases "0 \<le> i")
  case True
  with assms(2) have "nat i < Suc t" by linarith
  then have "xs ! nat i = take (Suc t) xs ! nat i" "xs' ! nat i = take (Suc t) xs' ! nat i"
    by simp_all
  with assms(1) True show ?thesis by (simp add: src_row_def)
next
  case False
  then show ?thesis by (simp add: src_row_def)
qed

lemma causal_sum_agree:
  assumes "take (Suc t) xs = take (Suc t) xs'" "u \<le> t"
  shows "causal_sum w hs xs u = causal_sum w hs xs' u"
  unfolding causal_sum_def
proof (rule sum.cong[OF refl])
  fix k assume "k \<in> {..<length w}"
  then have "int u - (int (length w) - 1) + int k \<le> int t" using assms(2) by simp
  from src_row_agree[OF assms(1) this]
  show "w ! k * src_row hs xs (int u - (int (length w) - 1) + int k)
      = w ! k * src_row hs xs' (int u - (int (length w) - 1) + int k)"
    by simp
qed

section \<open>Causality of the reference forward\<close>

text \<open>
  Claim C4. If two signals agree on all positions up to and including \<open>t\<close>
  (\<^verbatim>\<open>x[..., :t+1] = x'[..., :t+1]\<close>), then the outputs of \<^verbatim>\<open>causal_conv1d_ref\<close> for
  them, with the same weight, bias, initial state and activation, agree on all positions
  up to and including \<open>t\<close>. The two signals may differ in length beyond \<open>t\<close>.
\<close>

theorem causality:
  assumes "has_shape3 B D L x"
    and "has_shape3 B D L' x'"
    and "has_shape2 D W weight"
    and "pred_option (has_shape1 D) bias"
    and "pred_option (has_shape3 B D S) hidden"
    and "activation_ok act"
    and "0 < D" "0 < W"
    and "t < L" "t < L'"
    and "slice_to (Suc t) x = slice_to (Suc t) x'"
  shows "\<exists>out out'. causal_conv1d_ref x weight bias hidden act = Inr out
     \<and> causal_conv1d_ref x' weight bias hidden act = Inr out'
     \<and> slice_to (Suc t) out = slice_to (Suc t) out'"
proof -
  let ?f = "causal_out x weight bias hidden act"
  let ?f' = "causal_out x' weight bias hidden act"
  let ?out = "\<lparr>shape3 = (B, D, L),
      data3 = map (\<lambda>b. map (\<lambda>d. map (?f b d) [0..<L]) [0..<D]) [0..<B]\<rparr>"
  let ?out' = "\<lparr>shape3 = (B, D, L'),
      data3 = map (\<lambda>b. map (\<lambda>d. map (?f' b d) [0..<L']) [0..<D]) [0..<B]\<rparr>"
  have L: "0 < L" "0 < L'" using assms(9,10) by simp_all
  have 1: "causal_conv1d_ref x weight bias hidden act = Inr ?out"
    by (rule causal_conv1d_ref_closed[OF assms(1,3,4,5,6,7,8) L(1)])
  have 2: "causal_conv1d_ref x' weight bias hidden act = Inr ?out'"
    by (rule causal_conv1d_ref_closed[OF assms(2,3,4,5,6,7,8) L(2)])
  have rows: "take (Suc t) (data3 x ! b ! d) = take (Suc t) (data3 x' ! b ! d)"
    if "b < B" "d < D" for b d
    using slice_to_nth[OF assms(1) that, of "Suc t"] slice_to_nth[OF assms(2) that, of "Suc t"]
      assms(11) by simp
  have "?f b d u = ?f' b d u" if "b < B" "d < D" "u < Suc t" for b d u
    using causal_sum_agree[OF rows[OF that(1,2)], of u] that(3)
    by (simp add: causal_out_def)
  then have "map (\<lambda>b. map (\<lambda>d. map (?f b d) [0..<Suc t]) [0..<D]) [0..<B]
      = map (\<lambda>b. map (\<lambda>d. map (?f' b d) [0..<Suc t]) [0..<D]) [0..<B]"
    by simp
  then have "slice_to (Suc t) ?out = slice_to (Suc t) ?out'"
    using assms(9,10) by (simp only: slice_to_closed[of "Suc t" L] slice_to_closed[of "Suc t" L'] Suc_leI)
  with 1 2 show ?thesis by blast
qed

theorem causality_witness:
  "slice_to (Suc 1) \<lparr>shape3 = (1, 2, 4), data3 = [[[1, 2, 3, 4], [5, 6, 7, 8]]]\<rparr>
     = slice_to (Suc 1) \<lparr>shape3 = (1, 2, 5), data3 = [[[1, 2, 9, 9, 9], [5, 6, 0, 0, 0]]]\<rparr>
   \<and> (\<exists>out'. causal_conv1d_ref \<lparr>shape3 = (1, 2, 5), data3 = [[[1, 2, 9, 9, 9], [5, 6, 0, 0, 0]]]\<rparr>
          \<lparr>shape2 = (2, 3), data2 = [[1, 10, 100], [2, 3, 4]]\<rparr> None None None = Inr out'
        \<and> slice_to (Suc 1) out' = \<lparr>shape3 = (1, 2, 2), data3 = [[[100, 210], [20, 39]]]\<rparr>)"
proof -
  let ?x = "\<lparr>shape3 = (1, 2, 4), data3 = [[[1, 2, 3, 4], [5, 6, 7, 8]]]\<rparr>"
  let ?x' = "\<lparr>shape3 = (1, 2, 5), data3 = [[[1, 2, 9, 9, 9], [5, 6, 0, 0, 0]]]\<rparr>"
  let ?w = "\<lparr>shape2 = (2, 3), data2 = [[1, 10, 100], [2, 3, 4]]\<rparr>"
  have eq: "slice_to (Suc 1) ?x = slice_to (Suc 1) ?x'"
    by (simp add: slice_to_def)
  have "has_shape3 1 2 4 ?x" "has_shape3 1 2 5 ?x'" "has_shape2 2 3 ?w"
    "pred_option (has_shape1 2) None" "pred_option (has_shape3 1 2 0) None"
    "activation_ok None" "0 < (2 :: nat)" "0 < (3 :: nat)" "(1 :: nat) < 4" "(1 :: nat) < 5"
    by (simp_all add: has_shape3_def has_shape2_def wf3_def wf2_def activation_ok_def)
  from causality[OF this eq] obtain out out' where
    r: "causal_conv1d_ref ?x ?w None None None = Inr out"
      "causal_conv1d_ref ?x' ?w None None None = Inr out'"
      "slice_to (Suc 1) out = slice_to (Suc 1) out'"
    by blast
  have "causal_conv1d_ref ?x ?w None None None
      = Inr \<lparr>shape3 = (1, 2, 4), data3 = [[[100, 210, 321, 432], [20, 39, 56, 65]]]\<rparr>"
    by (simp add: causal_conv1d_ref_def activation_ok_def conv1d_depthwise_def conv1d_row_def
        slice_to_def Let_def upt_rec nth_append)
  with r(1) have "slice_to (Suc 1) out = \<lparr>shape3 = (1, 2, 2), data3 = [[[100, 210], [20, 39]]]\<rparr>"
    by (auto simp: slice_to_def)
  with r(2,3) eq show ?thesis by auto
qed

section \<open>Carrying the window across a split\<close>

lemma src_row_take:
  assumes "i < int p"
  shows "src_row [] (take p xs) i = src_row [] xs i"
proof (cases "0 \<le> i")
  case True
  with assms have "nat i < p" by linarith
  with True show ?thesis by (simp add: src_row_def)
next
  case False
  then show ?thesis by (simp add: src_row_def)
qed

lemma causal_sum_take:
  assumes "t < p"
  shows "causal_sum w [] (take p xs) t = causal_sum w [] xs t"
  unfolding causal_sum_def
proof (rule sum.cong[OF refl])
  fix k assume "k \<in> {..<length w}"
  then have "int t - (int (length w) - 1) + int k < int p" using assms by simp
  then show "w ! k * src_row [] (take p xs) (int t - (int (length w) - 1) + int k)
      = w ! k * src_row [] xs (int t - (int (length w) - 1) + int k)"
    by (simp only: src_row_take)
qed

lemma src_row_carry:
  assumes p: "n \<le> p" "p \<le> length xs"
    and i: "- int n \<le> i" "int p + i < int (length xs)"
  shows "src_row (drop (p - n) (take p xs)) (drop p xs) i = src_row [] xs (int p + i)"
proof -
  have len: "length (drop (p - n) (take p xs)) = n" using p by simp
  have pos: "0 \<le> int p + i" using p i by linarith
  show ?thesis
  proof (cases "0 \<le> i")
    case True
    then have "nat (int p + i) = p + nat i" by linarith
    with True pos p show ?thesis by (simp add: src_row_def)
  next
    case False
    with i have j: "nat (int n + i) < n" "p - n + nat (int n + i) = nat (int p + i)"
      "nat (int p + i) < p"
      using p by linarith+
    have "src_row (drop (p - n) (take p xs)) (drop p xs) i
        = drop (p - n) (take p xs) ! nat (int n + i)"
      using False i(1) by (simp only: src_row_def len if_False if_True)
    also have "\<dots> = take p xs ! (p - n + nat (int n + i))"
      using j(1) p by (intro nth_drop) simp
    also have "\<dots> = xs ! nat (int p + i)"
      using j by simp
    finally show ?thesis using pos by (simp add: src_row_def)
  qed
qed

lemma causal_sum_carry:
  assumes "0 < length w" "length w - 1 \<le> p" "p + t < length xs"
  shows "causal_sum w (drop (p - (length w - 1)) (take p xs)) (drop p xs) t
       = causal_sum w [] xs (p + t)"
  unfolding causal_sum_def
proof (rule sum.cong[OF refl])
  fix k assume "k \<in> {..<length w}"
  then have k: "k < length w" by simp
  define i where "i = int t - (int (length w) - 1) + int k"
  have "- int (length w - 1) \<le> i" "int p + i < int (length xs)"
    using k assms unfolding i_def by linarith+
  from src_row_carry[OF assms(2) _ this]
  have "src_row (drop (p - (length w - 1)) (take p xs)) (drop p xs) i = src_row [] xs (int p + i)"
    using assms(3) by simp
  moreover have "int p + i = int (p + t) - (int (length w) - 1) + int k"
    unfolding i_def by simp
  ultimately show "w ! k * src_row (drop (p - (length w - 1)) (take p xs)) (drop p xs)
        (int t - (int (length w) - 1) + int k)
      = w ! k * src_row [] xs (int (p + t) - (int (length w) - 1) + int k)"
    unfolding i_def by simp
qed

lemma map_upt_split:
  assumes "p \<le> L" "\<And>t. t < p \<Longrightarrow> f1 t = f t" "\<And>t. t < L - p \<Longrightarrow> f2 t = f (p + t)"
  shows "map f1 [0..<p] @ map f2 [0..<L - p] = map f [0..<L]"
proof (rule nth_equalityI)
  show "length (map f1 [0..<p] @ map f2 [0..<L - p]) = length (map f [0..<L])"
    using assms(1) by simp
next
  fix t assume "t < length (map f1 [0..<p] @ map f2 [0..<L - p])"
  then have t: "t < L" using assms(1) by simp
  show "(map f1 [0..<p] @ map f2 [0..<L - p]) ! t = map f [0..<L] ! t"
  proof (cases "t < p")
    case True
    with t assms(2) show ?thesis by (simp add: nth_append)
  next
    case False
    with t have "t - p < L - p" "p + (t - p) = t" by simp_all
    with False t assms(3)[of "t - p"] show ?thesis by (simp add: nth_append)
  qed
qed

lemma closed_form_shape:
  "has_shape3 B D L \<lparr>shape3 = (B, D, L),
      data3 = map (\<lambda>b. map (\<lambda>d. map (f b d) [0..<L]) [0..<D]) [0..<B]\<rparr>"
  by (simp add: has_shape3_def wf3_def list_all_iff)

section \<open>State continuity across two chunks\<close>

text \<open>
  Claim C2. Split a signal of length \<open>L\<close> at a position \<open>p \<ge> W - 1\<close> into the chunks
  \<^verbatim>\<open>x[..., :p]\<close> and \<^verbatim>\<open>x[..., p:]\<close>, both non-empty. Running \<^verbatim>\<open>causal_conv1d_ref\<close> on the
  first chunk alone, then on the second chunk with the last \<open>W - 1\<close> samples of the first
  chunk as \<^verbatim>\<open>hidden\<close>, and joining the two outputs along the time axis gives exactly the
  output of one run on the whole signal without initial state, with the same weight, bias
  and activation in all three runs.
\<close>

theorem state_continuity:
  assumes "has_shape3 B D L x"
    and "has_shape2 D W weight"
    and "pred_option (has_shape1 D) bias"
    and "activation_ok act"
    and "0 < D" "0 < W"
    and "W - 1 \<le> p" "0 < p" "p < L"
  shows "\<exists>out1 out2 out.
       causal_conv1d_ref (slice_to p x) weight bias None act = Inr out1
     \<and> causal_conv1d_ref (slice_from p x) weight bias
           (Some (slice_from (p - (W - 1)) (slice_to p x))) act = Inr out2
     \<and> causal_conv1d_ref x weight bias None act = Inr out
     \<and> cat_last out1 out2 = Inr out"
proof -
  let ?c1 = "slice_to p x"
  let ?c2 = "slice_from p x"
  let ?h = "slice_from (p - (W - 1)) ?c1"
  let ?f1 = "causal_out ?c1 weight bias None act"
  let ?f2 = "causal_out ?c2 weight bias (Some ?h) act"
  let ?f = "causal_out x weight bias None act"
  let ?out1 = "\<lparr>shape3 = (B, D, p),
      data3 = map (\<lambda>b. map (\<lambda>d. map (?f1 b d) [0..<p]) [0..<D]) [0..<B]\<rparr>"
  let ?out2 = "\<lparr>shape3 = (B, D, L - p),
      data3 = map (\<lambda>b. map (\<lambda>d. map (?f2 b d) [0..<L - p]) [0..<D]) [0..<B]\<rparr>"
  let ?out = "\<lparr>shape3 = (B, D, L),
      data3 = map (\<lambda>b. map (\<lambda>d. map (?f b d) [0..<L]) [0..<D]) [0..<B]\<rparr>"
  from assms(2) have w': "wf2 weight" "shape2 weight = (D, W)" by (simp_all add: has_shape2_def)
  have c1: "has_shape3 B D p ?c1"
    using has_shape3_slice_to[OF assms(1), of p] assms(9) by (simp add: min_def)
  have c2: "has_shape3 B D (L - p) ?c2"
    by (rule has_shape3_slice_from[OF assms(1)])
  have h: "has_shape3 B D (W - 1) ?h"
    using has_shape3_slice_from[OF c1, of "p - (W - 1)"] assms(7) by simp
  have none: "pred_option (has_shape3 B D 0) None" by simp
  have some: "pred_option (has_shape3 B D (W - 1)) (Some ?h)" using h by simp
  have L: "0 < L" "0 < L - p" using assms(9) by simp_all
  have 1: "causal_conv1d_ref ?c1 weight bias None act = Inr ?out1"
    by (rule causal_conv1d_ref_closed[OF c1 assms(2,3) none assms(4,5,6,8)])
  have 2: "causal_conv1d_ref ?c2 weight bias (Some ?h) act = Inr ?out2"
    by (rule causal_conv1d_ref_closed[OF c2 assms(2,3) some assms(4,5,6) L(2)])
  have 3: "causal_conv1d_ref x weight bias None act = Inr ?out"
    by (rule causal_conv1d_ref_closed[OF assms(1,2,3) none assms(4,5,6) L(1)])
  have rows: "data3 ?out1 ! b ! d @ data3 ?out2 ! b ! d = map (?f b d) [0..<L]"
    if bd: "b < B" "d < D" for b d
  proof -
    have lw: "length (data2 weight ! d) = W" by (rule wf2_lengths(2)[OF w' bd(2)])
    have lx: "length (data3 x ! b ! d) = L"
      using assms(1) bd by (simp add: has_shape3_def wf3_lengths(3))
    have r1: "data3 ?c1 ! b ! d = take p (data3 x ! b ! d)"
      by (rule slice_to_nth[OF assms(1) bd])
    have r2: "data3 ?c2 ! b ! d = drop p (data3 x ! b ! d)"
      by (rule slice_from_nth[OF assms(1) bd])
    have rh: "data3 ?h ! b ! d = drop (p - (W - 1)) (take p (data3 x ! b ! d))"
      using slice_from_nth[OF c1 bd, of "p - (W - 1)"] r1 by simp
    have a: "?f1 b d t = ?f b d t" if "t < p" for t
      using causal_sum_take[OF that, of "data2 weight ! d" "data3 x ! b ! d"]
      by (simp add: causal_out_def hid_row_def r1)
    have b: "?f2 b d t = ?f b d (p + t)" if "t < L - p" for t
    proof -
      have "p + t < length (data3 x ! b ! d)" using that lx by simp
      from causal_sum_carry[of "data2 weight ! d" p t "data3 x ! b ! d", unfolded lw,
          OF assms(6,7) this]
      show ?thesis by (simp add: causal_out_def hid_row_def r2 rh del: One_nat_def)
    qed
    have "map (?f1 b d) [0..<p] @ map (?f2 b d) [0..<L - p] = map (?f b d) [0..<L]"
      using assms(9) a b by (intro map_upt_split) simp_all
    with bd show ?thesis by simp
  qed
  have "cat_last ?out1 ?out2 = Inr \<lparr>shape3 = (B, D, p + (L - p)),
     data3 = map (\<lambda>b. map (\<lambda>d. data3 ?out1 ! b ! d @ data3 ?out2 ! b ! d) [0..<D]) [0..<B]\<rparr>"
    using closed_form_shape[of B D "L - p" ?f2] closed_form_shape[of B D p ?f1]
    by (intro cat_last_ok) (simp_all add: has_shape3_def)
  also have "p + (L - p) = L" using assms(9) by simp
  also have "map (\<lambda>b. map (\<lambda>d. data3 ?out1 ! b ! d @ data3 ?out2 ! b ! d) [0..<D]) [0..<B]
      = map (\<lambda>b. map (\<lambda>d. map (?f b d) [0..<L]) [0..<D]) [0..<B]"
    using rows by (intro map_cong refl) simp_all
  finally have 4: "cat_last ?out1 ?out2 = Inr ?out" .
  from 1 2 3 4 show ?thesis by blast
qed

theorem state_continuity_witness:
  "\<exists>out1 out2.
     causal_conv1d_ref (slice_to 2 \<lparr>shape3 = (1, 2, 4), data3 = [[[1, 2, 3, 4], [5, 6, 7, 8]]]\<rparr>)
        \<lparr>shape2 = (2, 3), data2 = [[1, 10, 100], [2, 3, 4]]\<rparr>
        (Some \<lparr>shape1 = 2, data1 = [1000, 1 / 2]\<rparr>) None None = Inr out1
   \<and> causal_conv1d_ref (slice_from 2 \<lparr>shape3 = (1, 2, 4), data3 = [[[1, 2, 3, 4], [5, 6, 7, 8]]]\<rparr>)
        \<lparr>shape2 = (2, 3), data2 = [[1, 10, 100], [2, 3, 4]]\<rparr>
        (Some \<lparr>shape1 = 2, data1 = [1000, 1 / 2]\<rparr>)
        (Some (slice_from (2 - (3 - 1))
           (slice_to 2 \<lparr>shape3 = (1, 2, 4), data3 = [[[1, 2, 3, 4], [5, 6, 7, 8]]]\<rparr>))) None
      = Inr out2
   \<and> cat_last out1 out2
      = Inr \<lparr>shape3 = (1, 2, 4),
             data3 = [[[1100, 1210, 1321, 1432], [41 / 2, 79 / 2, 113 / 2, 131 / 2]]]\<rparr>"
proof -
  let ?x = "\<lparr>shape3 = (1, 2, 4), data3 = [[[1, 2, 3, 4], [5, 6, 7, 8]]]\<rparr>"
  let ?w = "\<lparr>shape2 = (2, 3), data2 = [[1, 10, 100], [2, 3, 4]]\<rparr>"
  let ?b = "\<lparr>shape1 = 2, data1 = [1000, 1 / 2]\<rparr>"
  have "has_shape3 1 2 4 ?x" "has_shape2 2 3 ?w" "pred_option (has_shape1 2) (Some ?b)"
    "activation_ok None" "0 < (2 :: nat)" "0 < (3 :: nat)" "(3 :: nat) - 1 \<le> 2"
    "0 < (2 :: nat)" "(2 :: nat) < 4"
    by (simp_all add: has_shape3_def has_shape2_def has_shape1_def wf3_def wf2_def wf1_def
        activation_ok_def)
  from state_continuity[OF this] obtain out1 out2 out where
    r: "causal_conv1d_ref (slice_to 2 ?x) ?w (Some ?b) None None = Inr out1"
      "causal_conv1d_ref (slice_from 2 ?x) ?w (Some ?b)
         (Some (slice_from (2 - (3 - 1)) (slice_to 2 ?x))) None = Inr out2"
      "causal_conv1d_ref ?x ?w (Some ?b) None None = Inr out"
      "cat_last out1 out2 = Inr out"
    by blast
  have "causal_conv1d_ref ?x ?w (Some ?b) None None
      = Inr \<lparr>shape3 = (1, 2, 4),
             data3 = [[[1100, 1210, 1321, 1432], [41 / 2, 79 / 2, 113 / 2, 131 / 2]]]\<rparr>"
    by (simp add: causal_conv1d_ref_def activation_ok_def conv1d_depthwise_def conv1d_row_def
        slice_to_def Let_def upt_rec nth_append)
  with r(3) have "out = \<lparr>shape3 = (1, 2, 4),
             data3 = [[[1100, 1210, 1321, 1432], [41 / 2, 79 / 2, 113 / 2, 131 / 2]]]\<rparr>"
    by simp
  with r(1,2,4) show ?thesis by blast
qed

section \<open>The gradients returned by \<^verbatim>\<open>CausalConv1dFn.backward\<close>\<close>

text \<open>
  The tuple that \<^verbatim>\<open>CausalConv1dFn.backward\<close> returns. Whenever it returns, on a context
  whose checkpoint is \<open>x, weight, bias, seq_idx\<close>, it returns five values: the \<open>dx\<close> and
  \<open>dweight\<close> of the extension's backward, then its \<open>dbias\<close> when the saved bias is not
  \<^verbatim>\<open>None\<close> and \<^verbatim>\<open>None\<close> when it is, then \<^verbatim>\<open>None\<close> twice. So the third value
  is the bias gradient exactly when a bias was saved, and every value after the third is
  \<^verbatim>\<open>None\<close>.
\<close>

lemma backward_bias_gradient:
  assumes "saved_tensors ctx = [x, weight, bias, seq_idx]"
    and "CausalConv1dFn_backward causal_conv1d_bwd ctx dout = Inr grads"
  shows "\<exists>dx dweight dbias flag.
       activation ctx = Some flag
     \<and> causal_conv1d_bwd x weight bias
          (if neither_unit_stride dout = Inr True then contiguous dout else dout)
          seq_idx None flag = Inr (dx, dweight, dbias)
     \<and> grads = [dx, dweight, if bias \<noteq> None then dbias else None, None, None]
     \<and> length grads = 5
     \<and> (bias = None \<longrightarrow> grads ! 2 = None) \<and> (bias \<noteq> None \<longrightarrow> grads ! 2 = dbias)
     \<and> grads ! 3 = None \<and> grads ! 4 = None"
proof -
  from assms obtain c where c: "neither_unit_stride dout = Inr c"
    by (cases "neither_unit_stride dout") (simp_all add: CausalConv1dFn_backward_def)
  from assms c obtain flag where flag: "activation ctx = Some flag"
    by (cases "activation ctx") (simp_all add: CausalConv1dFn_backward_def Let_def)
  let ?dout = "if neither_unit_stride dout = Inr True then contiguous dout else dout"
  have d: "(if c then contiguous dout else dout) = ?dout" using c by simp
  from assms c flag obtain dx dweight dbias where
    k: "causal_conv1d_bwd x weight bias ?dout seq_idx None flag = Inr (dx, dweight, dbias)"
    unfolding CausalConv1dFn_backward_def Let_def d
    by (cases "causal_conv1d_bwd x weight bias ?dout seq_idx None flag") auto
  from assms c flag k
  have g: "grads = [dx, dweight, if bias \<noteq> None then dbias else None, None, None]"
    unfolding CausalConv1dFn_backward_def Let_def d by simp
  have "length grads = 5" "bias = None \<longrightarrow> grads ! 2 = None" "bias \<noteq> None \<longrightarrow> grads ! 2 = dbias"
    "grads ! 3 = None" "grads ! 4 = None"
    unfolding g by (simp_all add: numeral_nat)
  with flag k g show ?thesis by blast
qed

lemma backward_bias_gradient_example:
  "CausalConv1dFn_backward
      (\<lambda>x w b dout s dx a. (Inr (Some (1 :: nat), Some 2, Some 3) :: unit + _))
      \<lparr>saved_tensors = [Some \<lparr>sizes = [1, 2, 2], strides = [4, 2, 1], contents = ()\<rparr>,
                         Some \<lparr>sizes = [2, 3], strides = [3, 1], contents = ()\<rparr>, None, None],
        activation = Some False\<rparr>
      \<lparr>sizes = [1, 2, 2], strides = [4, 2, 1], contents = ()\<rparr>
    = Inr [Some 1, Some 2, None, None, None]
   \<and> CausalConv1dFn_backward
      (\<lambda>x w b dout s dx a. (Inr (Some (1 :: nat), Some 2, Some 3) :: unit + _))
      \<lparr>saved_tensors = [Some \<lparr>sizes = [1, 2, 2], strides = [4, 2, 1], contents = ()\<rparr>,
                         Some \<lparr>sizes = [2, 3], strides = [3, 1], contents = ()\<rparr>,
                         Some \<lparr>sizes = [2], strides = [1], contents = ()\<rparr>, None],
        activation = Some False\<rparr>
      \<lparr>sizes = [1, 2, 2], strides = [4, 2, 1], contents = ()\<rparr>
    = Inr [Some 1, Some 2, Some 3, None, None]"
proof -
  let ?k = "\<lambda>x w b dout s dx a. (Inr (Some (1 :: nat), Some 2, Some 3) :: unit + _)"
  let ?x = "\<lparr>sizes = [1, 2, 2], strides = [4, 2, 1], contents = ()\<rparr>"
  let ?w = "\<lparr>sizes = [2, 3], strides = [3, 1], contents = ()\<rparr>"
  let ?b = "\<lparr>sizes = [2], strides = [1], contents = ()\<rparr>"
  let ?c0 = "\<lparr>saved_tensors = [Some ?x, Some ?w, None, None], activation = Some False\<rparr>"
  let ?c1 = "\<lparr>saved_tensors = [Some ?x, Some ?w, Some ?b, None], activation = Some False\<rparr>"
  have r0: "\<exists>g. CausalConv1dFn_backward ?k ?c0 ?x = Inr g"
    and r1: "\<exists>g. CausalConv1dFn_backward ?k ?c1 ?x = Inr g"
    by (simp_all add: CausalConv1dFn_backward_def neither_unit_stride_def stride_def)
  from r0 obtain g0 where g0: "CausalConv1dFn_backward ?k ?c0 ?x = Inr g0" by blast
  from r1 obtain g1 where g1: "CausalConv1dFn_backward ?k ?c1 ?x = Inr g1" by blast
  have s0: "saved_tensors ?c0 = [Some ?x, Some ?w, None, None]"
    and s1: "saved_tensors ?c1 = [Some ?x, Some ?w, Some ?b, None]" by simp_all
  from backward_bias_gradient[OF s0 g0] have "g0 = [Some 1, Some 2, None, None, None]"
    by auto
  moreover from backward_bias_gradient[OF s1 g1] have "g1 = [Some 1, Some 2, Some 3, None, None]"
    by auto
  ultimately show ?thesis using g0 g1 by simp
qed

text \<open>
  Claim C7 asks that a bias gradient is returned exactly when a bias was saved, which
  \<open>backward_bias_gradient\<close> shows, and that the gradients for the \<^verbatim>\<open>seq_idx\<close> and
  \<^verbatim>\<open>activation\<close> arguments are \<^verbatim>\<open>None\<close>. The second part fails: \<^verbatim>\<open>forward\<close> has
  six inputs since \<^verbatim>\<open>hidden\<close> was added, and \<^verbatim>\<open>backward\<close> still returns five values.
  After a forward call with a bias, the two trailing \<^verbatim>\<open>None\<close> fall to \<^verbatim>\<open>hidden\<close> and
  \<^verbatim>\<open>seq_idx\<close>, and the tuple has no entry for \<^verbatim>\<open>activation\<close>.
\<close>

theorem backward_five_gradients_for_six_inputs:
  "CausalConv1dFn_backward
      (\<lambda>x w b dout s dx a. (Inr (Some (1 :: nat), Some 2, Some 3) :: unit + _))
      (snd (CausalConv1dFn_forward (\<lambda>x w b h s a. (Inr x :: unit + unit strided))
          \<lparr>saved_tensors = [], activation = None\<rparr>
          \<lparr>sizes = [1, 2, 2], strides = [4, 2, 1], contents = ()\<rparr>
          \<lparr>sizes = [2, 3], strides = [3, 1], contents = ()\<rparr>
          (Some \<lparr>sizes = [2], strides = [1], contents = ()\<rparr>) None None None))
      \<lparr>sizes = [1, 2, 2], strides = [4, 2, 1], contents = ()\<rparr>
    = Inr [Some 1, Some 2, Some 3, None, None]
   \<and> length [Some (1 :: nat), Some 2, Some 3, None, None] = 5
   \<and> length forward_inputs = 6
   \<and> gradient_slot ''bias'' [Some (1 :: nat), Some 2, Some 3, None, None] = Some (Some 3)
   \<and> gradient_slot ''hidden'' [Some (1 :: nat), Some 2, Some 3, None, None] = Some None
   \<and> gradient_slot ''seq_idx'' [Some (1 :: nat), Some 2, Some 3, None, None] = Some None
   \<and> gradient_slot ''activation'' [Some (1 :: nat), Some 2, Some 3, None, None] = None"
  by (simp add: CausalConv1dFn_backward_def CausalConv1dFn_forward_def Let_def
      activation_ok_def neither_unit_stride_def stride_def contiguous_def is_contiguous_def
      forward_inputs_def gradient_slot_def)

section \<open>The initial state is neither saved nor differentiated\<close>



section \<open>What contiguous() keeps\<close>

lemma contiguous_same: "sizes (contiguous t) = sizes t \<and> contents (contiguous t) = contents t"
  by (simp add: contiguous_def)

section \<open>Layout of the signal handed to the extension\<close>

text \<open>
  Claim C9 says that a signal of which neither the time nor the channel dimension has
  unit stride is not normalised by the engine itself. \<^verbatim>\<open>CausalConv1dFn.forward\<close> does
  normalise it: a \<open>(1, 2, 2)\<close> view with strides \<open>(8, 4, 2)\<close> (every second sample of a
  contiguous \<open>(1, 2, 4)\<close> tensor) reaches the extension with strides \<open>(4, 2, 1)\<close>. The
  extension function below returns the signal it was given, which shows what was dispatched.
\<close>

theorem forward_normalises_layout_counterexample:
  "neither_unit_stride \<lparr>sizes = [1, 2, 2], strides = [8, 4, 2], contents = ()\<rparr> = Inr True
   \<and> fst (CausalConv1dFn_forward (\<lambda>x w b h s a. (Inr x :: unit + unit strided))
        \<lparr>saved_tensors = [], activation = None\<rparr>
        \<lparr>sizes = [1, 2, 2], strides = [8, 4, 2], contents = ()\<rparr>
        \<lparr>sizes = [2, 3], strides = [3, 1], contents = ()\<rparr> None None None None)
     = Inr \<lparr>sizes = [1, 2, 2], strides = [4, 2, 1], contents = ()\<rparr>
   \<and> \<lparr>sizes = [1, 2, 2], strides = [4, 2, 1], contents = ()\<rparr>
     \<noteq> \<lparr>sizes = [1, 2, 2], strides = [8, 4, 2], contents = ()\<rparr>"
  by (simp add: CausalConv1dFn_forward_def neither_unit_stride_def stride_def activation_ok_def
      contiguous_def is_contiguous_def Let_def)

text \<open>
  Claim C9, amended. For a three-dimensional signal and a supported activation, the
  forward engine hands the signal to the extension unchanged when its time dimension or
  its channel dimension has unit stride; when neither has, the engine itself replaces it
  by \<^verbatim>\<open>x.contiguous()\<close>, which has the same sizes and contents, before it saves and
  dispatches it. The bias and the segment index are always made contiguous.
\<close>

theorem forward_layout:
  assumes "activation_ok act"
    and "length (strides x) = 3"
  shows "fst (CausalConv1dFn_forward causal_conv1d_fwd ctx x weight bias hidden seq_idx act)
       = map_sum FromExtension id
           (causal_conv1d_fwd
              (if strides x ! 2 = 1 \<or> strides x ! 1 = 1 then x else contiguous x)
              weight (map_option contiguous bias) hidden (map_option contiguous seq_idx)
              (act \<in> set [Some ''silu'', Some ''swish'']))
     \<and> sizes (contiguous x) = sizes x \<and> contents (contiguous x) = contents x"
proof -
  have "neither_unit_stride x = Inr (strides x ! 2 \<noteq> 1 \<and> strides x ! 1 \<noteq> 1)"
    using assms(2) by (simp add: neither_unit_stride_def stride_def)
  with assms(1) show ?thesis
    by (auto simp: CausalConv1dFn_forward_def Let_def contiguous_same split: sum.splits)
qed

theorem forward_layout_witness:
  "fst (CausalConv1dFn_forward (\<lambda>x w b h s a. (Inr x :: unit + unit strided))
        \<lparr>saved_tensors = [], activation = None\<rparr>
        \<lparr>sizes = [1, 2, 2], strides = [2, 1, 2], contents = ()\<rparr>
        \<lparr>sizes = [2, 3], strides = [3, 1], contents = ()\<rparr> None None None (Some ''silu''))
     = Inr \<lparr>sizes = [1, 2, 2], strides = [2, 1, 2], contents = ()\<rparr>"
proof -
  have "activation_ok (Some ''silu'')" by (simp add: activation_ok_def)
  moreover have "length (strides \<lparr>sizes = [1, 2, 2], strides = [2, 1, 2], contents = ()\<rparr>) = 3"
    by simp
  ultimately show ?thesis
    using forward_layout[of "Some ''silu''"
        "\<lparr>sizes = [1, 2, 2], strides = [2, 1, 2], contents = ()\<rparr>"
        "\<lambda>x w b h s a. (Inr x :: unit + unit strided)"
        "\<lparr>saved_tensors = [], activation = None\<rparr>"
        "\<lparr>sizes = [2, 3], strides = [3, 1], contents = ()\<rparr>" None None None]
    by simp
qed

end
